theory Spec2Isabelle
  imports Complex_Main "HOL-Library.Word" "HOL-Library.Multiset"
begin

section \<open>Data model\<close>

text \<open>
  The server (\<^verbatim>\<open>server.js\<close>) is a set of HTTP handlers over three document collections.
  A collection is modelled as the list of its documents in the store's natural order; the
  database is a record of the three lists and every handler is a function from the request
  and the database to the response and the new database.

  A document identifier is a 12-byte ObjectId, modelled as the natural number its bytes
  spell. A request carries identifiers as text, and the library turns the text into an
  ObjectId (\<^verbatim>\<open>new mongoose.Types.ObjectId(orderId)\<close>, and the cast that
  \<^verbatim>\<open>findById\<close>, \<^verbatim>\<open>findByIdAndUpdate\<close> and \<^verbatim>\<open>findByIdAndDelete\<close> apply to their
  argument): a string of 24 hexadecimal digits is accepted, anything else raises. (Older
  releases of the library also read a string of exactly 12 characters as the 12 bytes; the
  malformed identifier used below, \<^verbatim>\<open>abc\<close>, is refused by every release.)
\<close>

type_synonym objectId = nat

type_synonym date = nat

definition hexDigit :: "char \<Rightarrow> nat option" where
  "hexDigit c =
     (let n = (of_char c :: nat)
      in if 48 \<le> n \<and> n \<le> 57 then Some (n - 48)
         else if 97 \<le> n \<and> n \<le> 102 then Some (n - 87)
         else if 65 \<le> n \<and> n \<le> 70 then Some (n - 55)
         else None)"

fun hexValue :: "nat \<Rightarrow> string \<Rightarrow> nat option" where
  "hexValue acc [] = Some acc"
| "hexValue acc (c # cs) =
     (case hexDigit c of None \<Rightarrow> None | Some d \<Rightarrow> hexValue (16 * acc + d) cs)"

definition castObjectId :: "string \<Rightarrow> objectId option" where
  "castObjectId s = (if length s = 24 then hexValue 0 s else None)"

text \<open>
  Modelled from the spec: the User schema (\<^verbatim>\<open>models/user.js\<close> is not among the sources).
  The spec gives a User a first name, a last name and an email, all strings, which are also
  the fields \<^verbatim>\<open>generateUserData\<close> fills; the order-detail handler names one more field,
  \<^verbatim>\<open>password\<close>, which a stored User may or may not have. \<open>user_data\<close> is a User before it
  is stored, \<open>user\<close> the stored document with its \<^verbatim>\<open>_id\<close>.
\<close>

record user_data =
  firstName :: string
  lastName :: string
  email :: string

record user = user_data +
  u_id :: objectId
  password :: "string option"

text \<open>
  Modelled from the spec: the Product schema (\<^verbatim>\<open>models/product.js\<close> is not among the
  sources). The spec gives a Product a name (string), a quantity (integer), a price
  (decimal) and an image (string), the four fields the handlers read and write. Prices
  are rationals, the exact counterpart of the numbers the store holds; \<open>image_url\<close> is the
  field \<^verbatim>\<open>image\<close>.
\<close>

record product_data =
  name :: string
  quantity :: int
  price :: rat
  image_url :: string

record product = product_data +
  p_id :: objectId

text \<open>
  \<^verbatim>\<open>models/order.js\<close>: \<^verbatim>\<open>createdAt\<close>, \<^verbatim>\<open>userId\<close> and \<^verbatim>\<open>productId\<close>, all required. The
  bookkeeping fields that the library adds to documents (\<^verbatim>\<open>__v\<close>, \<^verbatim>\<open>updatedAt\<close>) are left
  out of all three records.
\<close>

record order =
  o_id :: objectId
  createdAt :: date
  userId :: objectId
  productId :: objectId

record db =
  users :: "user list"
  products :: "product list"
  orders :: "order list"

text \<open>
  The store keeps the \<^verbatim>\<open>_id\<close> of a collection's documents distinct; every handler that
  writes preserves this.
\<close>

definition unique_ids :: "db \<Rightarrow> bool" where
  "unique_ids s =
     (distinct (map u_id (users s)) \<and> distinct (map p_id (products s))
      \<and> distinct (map o_id (orders s)))"

text \<open>
  The two report documents: an Order with the User and the Product it references inlined
  (GET /order-details), and the seven statistics of GET /products-statistic.
\<close>

record order_details = order +
  userDetails :: user
  productDetails :: product

record statistic =
  avgPrice :: rat
  totalPrice :: rat
  minPrice :: rat
  maxPrice :: rat
  uniqueNames :: "string list"
  firstProductName :: string
  lastProductName :: string

text \<open>
  The message literals of \<^verbatim>\<open>server.js\<close> are Ukrainian sentences; each constructor stands
  for one literal. \<open>ProductNotFound\<close> is the literal shared by lines 53, 112 and 128.
\<close>

datatype message =
    InitialDataAdded
  | InitialDataError
  | UserNotFound
  | ProductNotFound
  | OrderCreated
  | OrderCreateError
  | ProductCreateError
  | ProductListError
  | ProductUpdateError
  | ProductDeleteError
  | StatisticError
  | OrderNotFound
  | OrderDetailsError

section \<open>Library operations\<close>

text \<open>
  What a database call can raise. Every handler wraps its body in \<^verbatim>\<open>try\<close>/\<^verbatim>\<open>catch\<close> and
  answers 500 on any exception. The exceptions modelled are the ones the request
  determines; a lost connection is outside the model.
\<close>

datatype error = CastError | ValidationError | SyntaxError | StageError

text \<open>
  A fresh ObjectId for an inserted document: one that no document of the collection has.
\<close>

definition newObjectId :: "objectId list \<Rightarrow> objectId" where
  "newObjectId ids = Suc (fold max ids 0)"

text \<open>
  \<^verbatim>\<open>Model.findById(id)\<close>: an absent identifier finds nothing, a malformed one raises
  CastError, a well-formed one yields the first document with that \<^verbatim>\<open>_id\<close> or null.
\<close>

definition findById :: "('d \<Rightarrow> objectId) \<Rightarrow> 'd list \<Rightarrow> string option \<Rightarrow> error + 'd option" where
  "findById idOf coll q =
     (case q of
        None \<Rightarrow> Inr None
      | Some s \<Rightarrow>
          (case castObjectId s of
             None \<Rightarrow> Inl CastError
           | Some i \<Rightarrow> Inr (find (\<lambda>d. idOf d = i) coll)))"

section \<open>POST /create-order\<close>

datatype body =
    Message message
  | ProductBody product
  | ProductList "product list"
  | StatisticList "statistic list"
  | OrderDetails order_details

record response =
  status :: nat
  body :: body

record order_request =
  req_userId :: "string option"
  req_productId :: "string option"

text \<open>
  The ObjectId a request field denotes, if any; a request field resolves in a collection
  when it denotes the \<^verbatim>\<open>_id\<close> of one of its documents, and is well formed when it is
  absent or denotes an ObjectId.
\<close>

definition idOfRequest :: "string option \<Rightarrow> objectId option" where
  "idOfRequest q = (case q of None \<Rightarrow> None | Some s \<Rightarrow> castObjectId s)"

definition wellFormedId :: "string option \<Rightarrow> bool" where
  "wellFormedId q = (case q of None \<Rightarrow> True | Some s \<Rightarrow> castObjectId s \<noteq> None)"

definition resolves :: "('d \<Rightarrow> objectId) \<Rightarrow> 'd list \<Rightarrow> string option \<Rightarrow> bool" where
  "resolves idOf coll q =
     (case idOfRequest q of None \<Rightarrow> False | Some i \<Rightarrow> i \<in> idOf ` set coll)"

text \<open>
  \<^verbatim>\<open>new Order({createdAt, userId, productId})\<close> followed by \<^verbatim>\<open>save()\<close>: the schema casts
  both references to ObjectIds and requires them; \<^verbatim>\<open>save\<close> raises when one is missing or
  malformed, and otherwise appends the document under a fresh \<^verbatim>\<open>_id\<close>.
\<close>

definition save_Order :: "date \<Rightarrow> string option \<Rightarrow> string option \<Rightarrow> order list \<Rightarrow> error + order list" where
  "save_Order now uid pid coll =
     (case idOfRequest uid of
        None \<Rightarrow> Inl ValidationError
      | Some u \<Rightarrow>
          (case idOfRequest pid of
             None \<Rightarrow> Inl ValidationError
           | Some p \<Rightarrow>
               Inr (coll @ [\<lparr>o_id = newObjectId (map o_id coll), createdAt = now,
                            userId = u, productId = p\<rparr>])))"

text \<open>
  Lines 41 to 69. Both lookups run before either result is tested; \<open>now\<close> is what
  \<^verbatim>\<open>new Date()\<close> returns.
\<close>

definition create_order :: "date \<Rightarrow> order_request \<Rightarrow> db \<Rightarrow> response \<times> db" where
  "create_order now req s =
     (case findById u_id (users s) (req_userId req) of
        Inl e \<Rightarrow> (\<lparr>status = 500, body = Message OrderCreateError\<rparr>, s)
      | Inr userExists \<Rightarrow>
          (case findById p_id (products s) (req_productId req) of
             Inl e \<Rightarrow> (\<lparr>status = 500, body = Message OrderCreateError\<rparr>, s)
           | Inr productExists \<Rightarrow>
               if userExists = None then (\<lparr>status = 400, body = Message UserNotFound\<rparr>, s)
               else if productExists = None
               then (\<lparr>status = 400, body = Message ProductNotFound\<rparr>, s)
               else
                 (case save_Order now (req_userId req) (req_productId req) (orders s) of
                    Inl e \<Rightarrow> (\<lparr>status = 500, body = Message OrderCreateError\<rparr>, s)
                  | Inr orders' \<Rightarrow>
                      (\<lparr>status = 201, body = Message OrderCreated\<rparr>,
                       s\<lparr>orders := orders'\<rparr>))))"

section \<open>PUT and DELETE /products/:productId\<close>

text \<open>
  \<^verbatim>\<open>Model.findByIdAndUpdate(id, update, {new: true})\<close> and
  \<^verbatim>\<open>Model.findByIdAndDelete(id)\<close> cast the identifier as \<^verbatim>\<open>findById\<close> does, act on the
  first document with that \<^verbatim>\<open>_id\<close> and return it (after the update, or as it was before
  the deletion), or null when there is none.
\<close>

fun updateOne :: "('d \<Rightarrow> bool) \<Rightarrow> ('d \<Rightarrow> 'd) \<Rightarrow> 'd list \<Rightarrow> 'd list" where
  "updateOne P f [] = []"
| "updateOne P f (d # ds) = (if P d then f d # ds else d # updateOne P f ds)"

fun deleteOne :: "('d \<Rightarrow> bool) \<Rightarrow> 'd list \<Rightarrow> 'd list" where
  "deleteOne P [] = []"
| "deleteOne P (d # ds) = (if P d then ds else d # deleteOne P ds)"

text \<open>
  The body of a request is JSON, and \<^verbatim>\<open>const { name, quantity, price, image } = req.body\<close>
  reads four of its fields, each of which may be missing (\<^verbatim>\<open>undefined\<close>, here \<open>None\<close>) or
  hold any JSON value. (\<^verbatim>\<open>null\<close>, which would store a document without a value for the
  field, has no counterpart in the Product record and is left out.)
\<close>

datatype json =
    JBool bool
  | JNumber rat
  | JString string
  | JArray "json list"
  | JObject "(string \<times> json) list"

record update_body =
  body_name :: "json option"
  body_quantity :: "json option"
  body_price :: "json option"
  body_image :: "json option"

text \<open>
  Modelled from the spec: the casts of the Product schema (\<^verbatim>\<open>models/product.js\<close> is not
  among the sources). The library casts every value of an update to the type its path has
  in the schema and raises CastError when it cannot; what each of the four paths makes of a
  JSON value is a parameter.
\<close>

record product_casts =
  cast_name :: "json \<Rightarrow> error + string"
  cast_quantity :: "json \<Rightarrow> error + int"
  cast_price :: "json \<Rightarrow> error + rat"
  cast_image :: "json \<Rightarrow> error + string"

text \<open>
  The update \<^verbatim>\<open>{ name, quantity, price, image }\<close>: the library leaves a field that is
  \<^verbatim>\<open>undefined\<close> out of the update and casts the others; the update sets the fields that
  remain and keeps the stored value of every other field.
\<close>

record product_update =
  set_name :: "string option"
  set_quantity :: "int option"
  set_price :: "rat option"
  set_image :: "string option"

definition cast_field :: "(json \<Rightarrow> error + 'a) \<Rightarrow> json option \<Rightarrow> error + 'a option" where
  "cast_field c v =
     (case v of
        None \<Rightarrow> Inr None
      | Some j \<Rightarrow> (case c j of Inl e \<Rightarrow> Inl e | Inr x \<Rightarrow> Inr (Some x)))"

definition cast_update :: "product_casts \<Rightarrow> update_body \<Rightarrow> error + product_update" where
  "cast_update sch b =
     (case cast_field (cast_name sch) (body_name b) of
        Inl e \<Rightarrow> Inl e
      | Inr n \<Rightarrow>
          (case cast_field (cast_quantity sch) (body_quantity b) of
             Inl e \<Rightarrow> Inl e
           | Inr k \<Rightarrow>
               (case cast_field (cast_price sch) (body_price b) of
                  Inl e \<Rightarrow> Inl e
                | Inr x \<Rightarrow>
                    (case cast_field (cast_image sch) (body_image b) of
                       Inl e \<Rightarrow> Inl e
                     | Inr u \<Rightarrow>
                         Inr \<lparr>set_name = n, set_quantity = k, set_price = x,
                              set_image = u\<rparr>))))"

definition apply_update :: "product_update \<Rightarrow> product \<Rightarrow> product" where
  "apply_update u d =
     d\<lparr>name := (case set_name u of None \<Rightarrow> name d | Some v \<Rightarrow> v),
       quantity := (case set_quantity u of None \<Rightarrow> quantity d | Some v \<Rightarrow> v),
       price := (case set_price u of None \<Rightarrow> price d | Some v \<Rightarrow> v),
       image_url := (case set_image u of None \<Rightarrow> image_url d | Some v \<Rightarrow> v)\<rparr>"

definition findByIdAndUpdate ::
  "product_casts \<Rightarrow> string \<Rightarrow> update_body \<Rightarrow> product list
     \<Rightarrow> error + (product option \<times> product list)" where
  "findByIdAndUpdate sch pid b coll =
     (case castObjectId pid of
        None \<Rightarrow> Inl CastError
      | Some i \<Rightarrow>
          (case cast_update sch b of
             Inl e \<Rightarrow> Inl e
           | Inr u \<Rightarrow>
               Inr (map_option (apply_update u) (find (\<lambda>d. p_id d = i) coll),
                    updateOne (\<lambda>d. p_id d = i) (apply_update u) coll)))"

definition findByIdAndDelete ::
  "string \<Rightarrow> product list \<Rightarrow> error + (product option \<times> product list)" where
  "findByIdAndDelete pid coll =
     (case castObjectId pid of
        None \<Rightarrow> Inl CastError
      | Some i \<Rightarrow> Inr (find (\<lambda>d. p_id d = i) coll, deleteOne (\<lambda>d. p_id d = i) coll))"

text \<open>
  Lines 100 to 120; \<open>pid\<close> is \<^verbatim>\<open>req.params.productId\<close> and \<open>b\<close> the four fields read
  from \<^verbatim>\<open>req.body\<close>.
\<close>

definition update_product ::
  "product_casts \<Rightarrow> string \<Rightarrow> update_body \<Rightarrow> db \<Rightarrow> response \<times> db" where
  "update_product sch pid b s =
     (case findByIdAndUpdate sch pid b (products s) of
        Inl e \<Rightarrow> (\<lparr>status = 500, body = Message ProductUpdateError\<rparr>, s)
      | Inr (updatedProduct, products') \<Rightarrow>
          (case updatedProduct of
             None \<Rightarrow> (\<lparr>status = 404, body = Message ProductNotFound\<rparr>, s\<lparr>products := products'\<rparr>)
           | Some d \<Rightarrow> (\<lparr>status = 200, body = ProductBody d\<rparr>, s\<lparr>products := products'\<rparr>)))"

text \<open>
  What a request asks of one field, in the spec's words: nothing when the body leaves the
  field out, and the value the schema's cast makes of the submitted one otherwise.
\<close>

definition field_request :: "(json \<Rightarrow> error + 'a) \<Rightarrow> json option \<Rightarrow> 'a option \<Rightarrow> bool" where
  "field_request c v r =
     (case v of
        None \<Rightarrow> r = None
      | Some j \<Rightarrow> (case r of None \<Rightarrow> False | Some x \<Rightarrow> c j = Inr x))"

text \<open>Lines 121 to 136.\<close>

definition delete_product :: "string \<Rightarrow> db \<Rightarrow> response \<times> db" where
  "delete_product pid s =
     (case findByIdAndDelete pid (products s) of
        Inl e \<Rightarrow> (\<lparr>status = 500, body = Message ProductDeleteError\<rparr>, s)
      | Inr (deletedProduct, products') \<Rightarrow>
          (case deletedProduct of
             None \<Rightarrow> (\<lparr>status = 404, body = Message ProductNotFound\<rparr>, s\<lparr>products := products'\<rparr>)
           | Some d \<Rightarrow> (\<lparr>status = 200, body = ProductBody d\<rparr>, s\<lparr>products := products'\<rparr>)))"

section \<open>GET /order-details/:orderId\<close>

text \<open>
  The stages of the pipeline of lines 219 to 252, each on the documents the stage before
  it produced. \<^verbatim>\<open>$lookup\<close> attaches to a document the list of the foreign documents whose
  \<^verbatim>\<open>_id\<close> equals its local field; \<^verbatim>\<open>$unwind\<close> emits one document per element of that list,
  hence none for an empty list; the \<^verbatim>\<open>$project\<close> removes \<^verbatim>\<open>userDetails.password\<close>.
\<close>

definition match_id :: "objectId \<Rightarrow> order list \<Rightarrow> order list" where
  "match_id i docs = filter (\<lambda>d. o_id d = i) docs"

definition lookup_users :: "user list \<Rightarrow> order list \<Rightarrow> (order \<times> user list) list" where
  "lookup_users coll docs = map (\<lambda>d. (d, filter (\<lambda>u. u_id u = userId d) coll)) docs"

definition unwind_userDetails :: "(order \<times> user list) list \<Rightarrow> (order \<times> user) list" where
  "unwind_userDetails docs = concat (map (\<lambda>(d, us). map (\<lambda>u. (d, u)) us) docs)"

definition lookup_products ::
  "product list \<Rightarrow> (order \<times> user) list \<Rightarrow> ((order \<times> user) \<times> product list) list" where
  "lookup_products coll docs =
     map (\<lambda>(d, u). ((d, u), filter (\<lambda>p. p_id p = productId d) coll)) docs"

definition unwind_productDetails ::
  "((order \<times> user) \<times> product list) list \<Rightarrow> ((order \<times> user) \<times> product) list" where
  "unwind_productDetails docs = concat (map (\<lambda>(du, ps). map (\<lambda>p. (du, p)) ps) docs)"

definition joined :: "order \<Rightarrow> user \<Rightarrow> product \<Rightarrow> order_details" where
  "joined d u p =
     \<lparr>o_id = o_id d, createdAt = createdAt d, userId = userId d, productId = productId d,
      userDetails = u, productDetails = p\<rparr>"

definition project_password :: "((order \<times> user) \<times> product) list \<Rightarrow> order_details list" where
  "project_password docs = map (\<lambda>((d, u), p). joined d (u\<lparr>password := None\<rparr>) p) docs"

definition order_details_pipeline :: "objectId \<Rightarrow> db \<Rightarrow> order_details list" where
  "order_details_pipeline i s =
     project_password
       (unwind_productDetails
          (lookup_products (products s)
             (unwind_userDetails
                (lookup_users (users s)
                   (match_id i (orders s))))))"

text \<open>Lines 215 to 263. The handler reads the database and leaves it as it is.\<close>

definition order_details :: "string \<Rightarrow> db \<Rightarrow> response" where
  "order_details orderId s =
     (case castObjectId orderId of
        None \<Rightarrow> \<lparr>status = 500, body = Message OrderDetailsError\<rparr>
      | Some i \<Rightarrow>
          (case order_details_pipeline i s of
             [] \<Rightarrow> \<lparr>status = 404, body = Message OrderNotFound\<rparr>
           | r # rs \<Rightarrow> \<lparr>status = 200, body = OrderDetails r\<rparr>))"

section \<open>GET /products-statistic\<close>

text \<open>
  The \<^verbatim>\<open>$group\<close> stage with \<^verbatim>\<open>_id: null\<close> folds all documents into one group, one
  accumulator per output field, in a single pass; over no documents it emits no group.
  \<^verbatim>\<open>$addToSet\<close> keeps each value once.
\<close>

record group_acc =
  acc_count :: nat
  acc_sum :: rat
  acc_min :: rat
  acc_max :: rat
  acc_names :: "string list"
  acc_first :: product
  acc_last :: product

definition group_init :: "product \<Rightarrow> group_acc" where
  "group_init d =
     \<lparr>acc_count = 1, acc_sum = price d, acc_min = price d, acc_max = price d,
      acc_names = [name d], acc_first = d, acc_last = d\<rparr>"

definition group_step :: "group_acc \<Rightarrow> product \<Rightarrow> group_acc" where
  "group_step a d =
     \<lparr>acc_count = acc_count a + 1,
      acc_sum = acc_sum a + price d,
      acc_min = min (acc_min a) (price d),
      acc_max = max (acc_max a) (price d),
      acc_names = (if name d \<in> set (acc_names a) then acc_names a else acc_names a @ [name d]),
      acc_first = acc_first a,
      acc_last = d\<rparr>"

definition group_all :: "product list \<Rightarrow> group_acc list" where
  "group_all docs = (case docs of [] \<Rightarrow> [] | d # ds \<Rightarrow> [foldl group_step (group_init d) ds])"

definition project_statistic :: "group_acc \<Rightarrow> statistic" where
  "project_statistic a =
     \<lparr>avgPrice = acc_sum a / of_nat (acc_count a),
      totalPrice = acc_sum a,
      minPrice = acc_min a,
      maxPrice = acc_max a,
      uniqueNames = acc_names a,
      firstProductName = name (acc_first a),
      lastProductName = name (acc_last a)\<rparr>"

text \<open>Lines 176 to 212.\<close>

definition products_statistic :: "db \<Rightarrow> response" where
  "products_statistic s =
     \<lparr>status = 200, body = StatisticList (map project_statistic (group_all (products s)))\<rparr>"

section \<open>GET /products\<close>

record products_query =
  q_sort :: "string option"
  q_limit :: "string option"
  q_skip :: "string option"
  q_search :: "string option"

text \<open>
  \<^verbatim>\<open>parseInt(string)\<close> with no radix: leading white space is skipped, one sign is read, a
  \<^verbatim>\<open>0x\<close> or \<^verbatim>\<open>0X\<close> prefix selects radix 16, and the longest run of digits is the value;
  with no digit the result is NaN, here \<open>None\<close>. An absent query parameter is
  \<^verbatim>\<open>undefined\<close>, which \<^verbatim>\<open>parseInt\<close> reads as the text \<^verbatim>\<open>undefined\<close>. Numbers are modelled
  as exact integers (JavaScript's are exact up to \<open>2 ^ 53\<close>), white space as the ASCII
  white space characters.
\<close>

definition isWhiteSpace :: "char \<Rightarrow> bool" where
  "isWhiteSpace c = ((of_char c :: nat) \<in> {9, 10, 11, 12, 13, 32})"

definition decDigit :: "char \<Rightarrow> nat option" where
  "decDigit c =
     (let n = (of_char c :: nat) in if 48 \<le> n \<and> n \<le> 57 then Some (n - 48) else None)"

fun takeDigits :: "(char \<Rightarrow> nat option) \<Rightarrow> string \<Rightarrow> nat list" where
  "takeDigits dig [] = []"
| "takeDigits dig (c # cs) = (case dig c of None \<Rightarrow> [] | Some d \<Rightarrow> d # takeDigits dig cs)"

definition radixValue :: "nat \<Rightarrow> nat list \<Rightarrow> nat" where
  "radixValue R ds = foldl (\<lambda>a d. a * R + d) 0 ds"

definition toString :: "string option \<Rightarrow> string" where
  "toString v = (case v of None \<Rightarrow> ''undefined'' | Some t \<Rightarrow> t)"

definition parseInt :: "string \<Rightarrow> int option" where
  "parseInt str =
     (let S = dropWhile isWhiteSpace str;
          negative = (case S of [] \<Rightarrow> False | c # cs \<Rightarrow> c = CHR ''-'');
          S1 = (case S of [] \<Rightarrow> [] | c # cs \<Rightarrow> if c = CHR ''+'' \<or> c = CHR ''-'' then cs else S);
          hex = (take 2 S1 = ''0x'' \<or> take 2 S1 = ''0X'');
          Z = (if hex then takeDigits hexDigit (drop 2 S1) else takeDigits decDigit S1);
          R = (if hex then 16 else 10)
      in if Z = [] then None
         else Some ((if negative then - 1 else 1) * int (radixValue R Z)))"

text \<open>\<^verbatim>\<open>x || d\<close> on a number: NaN and 0 are falsy.\<close>

definition or_default :: "int option \<Rightarrow> int \<Rightarrow> int" where
  "or_default x d = (case x of None \<Rightarrow> d | Some n \<Rightarrow> if n = 0 then d else n)"

definition sortField :: "products_query \<Rightarrow> string" where
  "sortField q = (case q_sort q of None \<Rightarrow> ''name'' | Some f \<Rightarrow> if f = [] then ''name'' else f)"

definition skipValue :: "products_query \<Rightarrow> int" where
  "skipValue q = or_default (parseInt (toString (q_skip q))) 0"

definition limitValue :: "products_query \<Rightarrow> int" where
  "limitValue q = or_default (parseInt (toString (q_limit q))) 10"

text \<open>
  The values a sort key can take, in the store's comparison order: null (also a missing
  field), then numbers, then strings (compared byte by byte), then ObjectIds.
\<close>

datatype bson = BNull | BNumber rat | BString string | BObjectId objectId

fun string_le :: "string \<Rightarrow> string \<Rightarrow> bool" where
  "string_le [] t = True"
| "string_le (a # as) [] = False"
| "string_le (a # as) (b # bs) =
     ((of_char a :: nat) < of_char b \<or> (a = b \<and> string_le as bs))"

fun bson_rank :: "bson \<Rightarrow> nat" where
  "bson_rank BNull = 0"
| "bson_rank (BNumber x) = 1"
| "bson_rank (BString t) = 2"
| "bson_rank (BObjectId i) = 3"

fun bson_le :: "bson \<Rightarrow> bson \<Rightarrow> bool" where
  "bson_le (BNumber x) (BNumber y) = (x \<le> y)"
| "bson_le (BString t) (BString u) = string_le t u"
| "bson_le (BObjectId i) (BObjectId j) = (i \<le> j)"
| "bson_le v w = (bson_rank v \<le> bson_rank w)"

text \<open>
  The stages GET /products uses. \<^verbatim>\<open>$match\<close> carries the compiled regular expression for
  \<^verbatim>\<open>name\<close>; \<^verbatim>\<open>$sort\<close> carries the field and sorts ascending. The store leaves the order of
  documents with equal keys open; the model keeps them in their former order. A \<^verbatim>\<open>$sort\<close>
  on a path with an empty component or a component that starts with \<^verbatim>\<open>$\<close>, a negative
  \<^verbatim>\<open>$skip\<close>, a \<^verbatim>\<open>$limit\<close> that is not positive, and a count beyond 64 bits are rejected.
\<close>

datatype stage = Match "string \<Rightarrow> bool" | Sort string | Skip int | Limit int

fun splitOn :: "char \<Rightarrow> string \<Rightarrow> string list" where
  "splitOn c [] = [] # []"
| "splitOn c (x # xs) =
     (if x = c then [] # splitOn c xs
      else (case splitOn c xs of [] \<Rightarrow> [x] # [] | w # ws \<Rightarrow> (x # w) # ws))"

definition valid_path :: "string \<Rightarrow> bool" where
  "valid_path f =
     list_all (\<lambda>w. case w of [] \<Rightarrow> False | c # cs \<Rightarrow> c \<noteq> CHR ''$'') (splitOn CHR ''.'' f)"

definition sort_key :: "string \<Rightarrow> (product \<Rightarrow> bson) option" where
  "sort_key f =
     (if \<not> valid_path f then None
      else if f = ''name'' then Some (\<lambda>d. BString (name d))
      else if f = ''quantity'' then Some (\<lambda>d. BNumber (of_int (quantity d)))
      else if f = ''price'' then Some (\<lambda>d. BNumber (price d))
      else if f = ''image'' then Some (\<lambda>d. BString (image_url d))
      else if f = ''_id'' then Some (\<lambda>d. BObjectId (p_id d))
      else Some (\<lambda>d. BNull))"

fun insert_by :: "('d \<Rightarrow> bson) \<Rightarrow> 'd \<Rightarrow> 'd list \<Rightarrow> 'd list" where
  "insert_by k x [] = [x]"
| "insert_by k x (y # ys) =
     (if bson_le (k x) (k y) then x # y # ys else y # insert_by k x ys)"

definition sort_by :: "('d \<Rightarrow> bson) \<Rightarrow> 'd list \<Rightarrow> 'd list" where
  "sort_by k ds = foldr (insert_by k) ds []"

definition int64_max :: int where
  "int64_max = 9223372036854775807"

fun run_stage :: "stage \<Rightarrow> product list \<Rightarrow> error + product list" where
  "run_stage (Match m) ds = Inr (filter (\<lambda>d. m (name d)) ds)"
| "run_stage (Sort f) ds =
     (case sort_key f of None \<Rightarrow> Inl StageError | Some k \<Rightarrow> Inr (sort_by k ds))"
| "run_stage (Skip n) ds =
     (if 0 \<le> n \<and> n \<le> int64_max then Inr (drop (nat n) ds) else Inl StageError)"
| "run_stage (Limit n) ds =
     (if 0 < n \<and> n \<le> int64_max then Inr (take (nat n) ds) else Inl StageError)"

fun aggregate :: "stage list \<Rightarrow> product list \<Rightarrow> error + product list" where
  "aggregate [] ds = Inr ds"
| "aggregate (st # sts) ds =
     (case run_stage st ds of Inl e \<Rightarrow> Inl e | Inr ds' \<Rightarrow> aggregate sts ds')"

text \<open>
  Lines 139 to 173. \<^verbatim>\<open>new RegExp(search, 'i')\<close> and the store's matching are the regular
  expression engine, a parameter of the model: \<open>RegExp_i t\<close> is \<open>None\<close> when the pattern
  \<open>t\<close> is rejected (the constructor or the store raises), and otherwise the test whether a
  subject contains a match of \<open>t\<close>, letter case ignored.
\<close>

type_synonym regex_engine = "string \<Rightarrow> (string \<Rightarrow> bool) option"

definition match_stages :: "regex_engine \<Rightarrow> products_query \<Rightarrow> error + stage list" where
  "match_stages RegExp_i q =
     (case q_search q of
        None \<Rightarrow> Inr []
      | Some t \<Rightarrow>
          if t = [] then Inr []
          else (case RegExp_i t of None \<Rightarrow> Inl SyntaxError | Some m \<Rightarrow> Inr [Match m]))"

definition products_pipeline :: "regex_engine \<Rightarrow> products_query \<Rightarrow> error + stage list" where
  "products_pipeline RegExp_i q =
     (case match_stages RegExp_i q of
        Inl e \<Rightarrow> Inl e
      | Inr ms \<Rightarrow> Inr (ms @ [Sort (sortField q)] @ [Skip (skipValue q), Limit (limitValue q)]))"

definition products_handler :: "regex_engine \<Rightarrow> products_query \<Rightarrow> db \<Rightarrow> response" where
  "products_handler RegExp_i q s =
     (case products_pipeline RegExp_i q of
        Inl e \<Rightarrow> \<lparr>status = 500, body = Message ProductListError\<rparr>
      | Inr aggregationPipeline \<Rightarrow>
          (case aggregate aggregationPipeline (products s) of
             Inl e \<Rightarrow> \<lparr>status = 500, body = Message ProductListError\<rparr>
           | Inr ds \<Rightarrow> \<lparr>status = 200, body = ProductList ds\<rparr>))"





text \<open>
  One engine for the concrete instances: the regular expressions made of ordinary
  characters and the wildcard \<^verbatim>\<open>.\<close>, which every engine reads alike. An ordinary character
  matches itself in either letter case, the wildcard matches any character but a line
  break, and the pattern may match anywhere in the subject. Patterns that use another
  syntax character are not in this fragment, and this engine turns them down.
\<close>

definition syntax_chars :: "char list" where
  "syntax_chars = [CHR ''^'', CHR ''$'', CHR 0x5C, CHR ''*'', CHR ''+'', CHR ''?'', CHR ''('',
     CHR '')'', CHR ''['', CHR '']'', CHR ''{'', CHR ''}'', CHR ''|'']"

definition lower :: "char \<Rightarrow> char" where
  "lower c =
     (case map_of (zip ''ABCDEFGHIJKLMNOPQRSTUVWXYZ'' ''abcdefghijklmnopqrstuvwxyz'') c of
        None \<Rightarrow> c
      | Some l \<Rightarrow> l)"

definition atom_matches :: "char \<Rightarrow> char \<Rightarrow> bool" where
  "atom_matches p c =
     (if p = CHR ''.'' then (of_char c :: nat) \<notin> {10, 13} else lower p = lower c)"

fun match_here :: "string \<Rightarrow> string \<Rightarrow> bool" where
  "match_here [] t = True"
| "match_here (p # ps) [] = False"
| "match_here (p # ps) (c # cs) = (atom_matches p c \<and> match_here ps cs)"

fun match_anywhere :: "string \<Rightarrow> string \<Rightarrow> bool" where
  "match_anywhere ps [] = match_here ps []"
| "match_anywhere ps (c # cs) = (match_here ps (c # cs) \<or> match_anywhere ps cs)"

definition wildcard_regex :: regex_engine where
  "wildcard_regex t =
     (if list_ex (\<lambda>c. c \<in> set syntax_chars) t then None else Some (match_anywhere t))"

section \<open>GET /add-initial-data\<close>

text \<open>
  The random data comes from one \<^verbatim>\<open>Chance\<close> object, whose calls each consume the state
  \<open>'g\<close> of its generator. The text generators are taken as they are; the numeric ones follow
  the library: \<^verbatim>\<open>random()\<close> is a 32-bit draw divided by \<open>2 ^ 32\<close>,
  \<^verbatim>\<open>integer({min, max})\<close> is \<^verbatim>\<open>Math.floor(random() * (max - min + 1) + min)\<close>, and
  \<^verbatim>\<open>floating({min, max, fixed})\<close> is an integer between \<^verbatim>\<open>min * 10^fixed\<close> and
  \<^verbatim>\<open>max * 10^fixed\<close> divided by \<^verbatim>\<open>10^fixed\<close>.
\<close>

record 'g chance =
  genrand_int32 :: "'g \<Rightarrow> 32 word \<times> 'g"
  chance_first :: "'g \<Rightarrow> string \<times> 'g"
  chance_last :: "'g \<Rightarrow> string \<times> 'g"
  chance_email :: "'g \<Rightarrow> string \<times> 'g"
  chance_word :: "'g \<Rightarrow> string \<times> 'g"
  chance_url :: "'g \<Rightarrow> string \<times> 'g"

definition chance_random :: "'g chance \<Rightarrow> 'g \<Rightarrow> rat \<times> 'g" where
  "chance_random ch g = (let (w, g') = genrand_int32 ch g in (of_nat (unat w) / 4294967296, g'))"

definition chance_integer :: "'g chance \<Rightarrow> int \<Rightarrow> int \<Rightarrow> 'g \<Rightarrow> int \<times> 'g" where
  "chance_integer ch mn mx g =
     (let (r, g') = chance_random ch g
      in (\<lfloor>r * of_int (mx - mn + 1) + of_int mn\<rfloor>, g'))"

definition chance_floating :: "'g chance \<Rightarrow> int \<Rightarrow> int \<Rightarrow> nat \<Rightarrow> 'g \<Rightarrow> rat \<times> 'g" where
  "chance_floating ch mn mx fixed g =
     (let f = 10 ^ fixed;
          (num, g') = chance_integer ch (mn * f) (mx * f) g
      in (of_int num / of_int f, g'))"

text \<open>Lines 12 to 23.\<close>

definition generateUserData :: "'g chance \<Rightarrow> 'g \<Rightarrow> user_data \<times> 'g" where
  "generateUserData ch g =
     (let (f, g1) = chance_first ch g;
          (l, g2) = chance_last ch g1;
          (e, g3) = chance_email ch g2
      in (\<lparr>firstName = f, lastName = l, email = e\<rparr>, g3))"

definition generateProductData :: "'g chance \<Rightarrow> 'g \<Rightarrow> product_data \<times> 'g" where
  "generateProductData ch g =
     (let (w, g1) = chance_word ch g;
          (n, g2) = chance_integer ch 1 100 g1;
          (p, g3) = chance_floating ch 1 1000 2 g2;
          (u, g4) = chance_url ch g3
      in (\<lparr>name = w, quantity = n, price = p, image_url = u\<rparr>, g4))"

text \<open>\<^verbatim>\<open>Array.from({ length: n }, f)\<close> calls \<open>f\<close> once per index, in order.\<close>

fun array_from :: "nat \<Rightarrow> ('g \<Rightarrow> 'a \<times> 'g) \<Rightarrow> 'g \<Rightarrow> 'a list \<times> 'g" where
  "array_from 0 f g = ([], g)"
| "array_from (Suc n) f g =
     (let (x, g1) = f g; (xs, g2) = array_from n f g1 in (x # xs, g2))"

text \<open>
  \<^verbatim>\<open>Model.insertMany(docs)\<close> validates every document against the schema first and raises
  without inserting when one fails; otherwise it appends them in order, each under a fresh
  \<^verbatim>\<open>_id\<close>. The validators of the User and Product schemas, which are not among the sources,
  are parameters.
\<close>

record schemas =
  valid_user :: "user_data \<Rightarrow> bool"
  valid_product :: "product_data \<Rightarrow> bool"

definition new_user :: "objectId \<Rightarrow> user_data \<Rightarrow> user" where
  "new_user i a =
     \<lparr>firstName = firstName a, lastName = lastName a, email = email a, u_id = i, password = None\<rparr>"

definition new_product :: "objectId \<Rightarrow> product_data \<Rightarrow> product" where
  "new_product i a =
     \<lparr>name = name a, quantity = quantity a, price = price a, image_url = image_url a, p_id = i\<rparr>"

definition insertMany ::
  "('a \<Rightarrow> bool) \<Rightarrow> (objectId \<Rightarrow> 'a \<Rightarrow> 'd) \<Rightarrow> ('d \<Rightarrow> objectId) \<Rightarrow> 'a list \<Rightarrow> 'd list
     \<Rightarrow> error + 'd list" where
  "insertMany valid mk idOf docs coll =
     (if list_all valid docs
      then Inr (fold (\<lambda>a c. c @ [mk (newObjectId (map idOf c)) a]) docs coll)
      else Inl ValidationError)"

text \<open>
  Lines 27 to 40. When the Users are inserted and the Products are refused, the answer is
  500 and the Users stay.
\<close>

definition add_initial_data :: "schemas \<Rightarrow> 'g chance \<Rightarrow> 'g \<Rightarrow> db \<Rightarrow> response \<times> 'g \<times> db" where
  "add_initial_data sch ch g s =
     (let (usersData, g1) = array_from 10 (generateUserData ch) g
      in case insertMany (valid_user sch) new_user u_id usersData (users s) of
           Inl e \<Rightarrow> (\<lparr>status = 500, body = Message InitialDataError\<rparr>, g1, s)
         | Inr users' \<Rightarrow>
             (let (productsData, g2) = array_from 10 (generateProductData ch) g1
              in case insertMany (valid_product sch) new_product p_id productsData (products s) of
                   Inl e \<Rightarrow>
                     (\<lparr>status = 500, body = Message InitialDataError\<rparr>, g2, s\<lparr>users := users'\<rparr>)
                 | Inr products' \<Rightarrow>
                     (\<lparr>status = 200, body = Message InitialDataAdded\<rparr>, g2,
                      s\<lparr>users := users', products := products'\<rparr>)))"

section \<open>Sample data\<close>

text \<open>Concrete documents and identifiers for the instances below.\<close>

definition id1 :: string where "id1 = ''000000000000000000000001''"
definition id2 :: string where "id2 = ''000000000000000000000002''"
definition id3 :: string where "id3 = ''000000000000000000000003''"

definition alice :: user where
  "alice = \<lparr>firstName = ''Alice'', lastName = ''Doe'', email = ''alice@example.com'',
            u_id = 1, password = Some ''secret''\<rparr>"

definition pen :: product where
  "pen = \<lparr>name = ''pen'', quantity = 7, price = 3 / 2, image_url = ''http://example.com/pen'',
          p_id = 2\<rparr>"

definition cup :: product where
  "cup = \<lparr>name = ''cup'', quantity = 3, price = 4, image_url = ''http://example.com/cup'',
          p_id = 3\<rparr>"

definition shop :: db where
  "shop = \<lparr>users = [alice], products = [pen], orders = []\<rparr>"

text \<open>
  A database with two orders: order 4 references Alice and the pen; order 5 references
  Alice and a product 9 that is no longer in the collection.
\<close>

definition id4 :: string where "id4 = ''000000000000000000000004''"
definition id5 :: string where "id5 = ''000000000000000000000005''"

definition market :: db where
  "market =
     \<lparr>users = [alice], products = [pen, cup],
      orders = [\<lparr>o_id = 4, createdAt = 5, userId = 1, productId = 2\<rparr>,
                \<lparr>o_id = 5, createdAt = 6, userId = 1, productId = 9\<rparr>]\<rparr>"

text \<open>
  Casts for the instances: a value of the path's type is taken as it is and every other
  value is refused. (The library's casts accept more, numeric text for a number among
  others; the instances submit no such value.)
\<close>

definition strict_casts :: product_casts where
  "strict_casts =
     \<lparr>cast_name = (\<lambda>j. case j of JString t \<Rightarrow> Inr t | _ \<Rightarrow> Inl CastError),
      cast_quantity =
        (\<lambda>j. case j of
               JNumber x \<Rightarrow> if of_int \<lfloor>x\<rfloor> = x then Inr \<lfloor>x\<rfloor> else Inl CastError
             | _ \<Rightarrow> Inl CastError),
      cast_price = (\<lambda>j. case j of JNumber x \<Rightarrow> Inr x | _ \<Rightarrow> Inl CastError),
      cast_image = (\<lambda>j. case j of JString t \<Rightarrow> Inr t | _ \<Rightarrow> Inl CastError)\<rparr>"

text \<open>Three products priced 10, 20 and 30, two of them under the same name.\<close>

definition trio :: db where
  "trio =
     \<lparr>users = [],
      products =
        [\<lparr>name = ''ink'', quantity = 1, price = 10, image_url = ''a'', p_id = 1\<rparr>,
         \<lparr>name = ''nib'', quantity = 2, price = 20, image_url = ''b'', p_id = 2\<rparr>,
         \<lparr>name = ''ink'', quantity = 3, price = 30, image_url = ''c'', p_id = 3\<rparr>],
      orders = []\<rparr>"

text \<open>Five products under five names.\<close>

definition pear :: product where
  "pear = \<lparr>name = ''pear'', quantity = 1, price = 10, image_url = ''a'', p_id = 1\<rparr>"

definition fig :: product where
  "fig = \<lparr>name = ''fig'', quantity = 2, price = 20, image_url = ''b'', p_id = 2\<rparr>"

definition kiwi :: product where
  "kiwi = \<lparr>name = ''kiwi'', quantity = 3, price = 30, image_url = ''c'', p_id = 3\<rparr>"

definition apple :: product where
  "apple = \<lparr>name = ''apple'', quantity = 4, price = 40, image_url = ''d'', p_id = 4\<rparr>"

definition lime :: product where
  "lime = \<lparr>name = ''lime'', quantity = 5, price = 50, image_url = ''e'', p_id = 5\<rparr>"

definition five :: db where
  "five = \<lparr>users = [], products = [pear, fig, kiwi, apple, lime], orders = []\<rparr>"

definition empty_db :: db where
  "empty_db = \<lparr>users = [], products = [], orders = []\<rparr>"

text \<open>
  Schemas that accept every document, and a \<^verbatim>\<open>Chance\<close> whose state counts its calls: the
  text generators pick a name by the count and mark it by kind, the generator of draws picks
  among five draws, the least and the greatest 32-bit value among them. The empty database
  is seeded with it once and twice.
\<close>

definition open_schemas :: schemas where
  "open_schemas = \<lparr>valid_user = (\<lambda>a. True), valid_product = (\<lambda>a. True)\<rparr>"

definition names7 :: "string list" where
  "names7 = [''ada'', ''bob'', ''cy'', ''dee'', ''eve'', ''fay'', ''gus'']"

definition draws5 :: "32 word list" where
  "draws5 = [0, 1073741824, 2147483648, 3221225472, 4294967295]"

definition counting_chance :: "nat chance" where
  "counting_chance =
     \<lparr>genrand_int32 = (\<lambda>g. (draws5 ! (g mod 5), Suc g)),
      chance_first = (\<lambda>g. (names7 ! (g mod 7), Suc g)),
      chance_last = (\<lambda>g. (names7 ! (g mod 7) @ ''son'', Suc g)),
      chance_email = (\<lambda>g. (names7 ! (g mod 7) @ ''@example.com'', Suc g)),
      chance_word = (\<lambda>g. (names7 ! (g mod 7) @ ''ware'', Suc g)),
      chance_url = (\<lambda>g. (''http://example.com/'' @ names7 ! (g mod 7), Suc g))\<rparr>"

definition seeded_once :: "response \<times> nat \<times> db" where
  "seeded_once = add_initial_data open_schemas counting_chance 0 empty_db"

definition seeded_twice :: "response \<times> nat \<times> db" where
  "seeded_twice =
     add_initial_data open_schemas counting_chance (fst (snd seeded_once))
       (snd (snd seeded_once))"

section \<open>Properties\<close>

lemma castObjectId_id1 [simp]: "castObjectId id1 = Some 1"
  by (simp add: castObjectId_def hexDigit_def id1_def)

lemma castObjectId_id2 [simp]: "castObjectId id2 = Some 2"
  by (simp add: castObjectId_def hexDigit_def id2_def)

lemma castObjectId_id3 [simp]: "castObjectId id3 = Some 3"
  by (simp add: castObjectId_def hexDigit_def id3_def)

lemma castObjectId_id4 [simp]: "castObjectId id4 = Some 4"
  by (simp add: castObjectId_def hexDigit_def id4_def)

lemma castObjectId_id5 [simp]: "castObjectId id5 = Some 5"
  by (simp add: castObjectId_def hexDigit_def id5_def)

lemma castObjectId_abc [simp]: "castObjectId ''abc'' = None"
  by (simp add: castObjectId_def)

lemma fold_max_ge: "(a::nat) \<le> fold max ids a \<and> (\<forall>x\<in>set ids. x \<le> fold max ids a)"
proof (induction ids arbitrary: a)
  case Nil
  show ?case by simp
next
  case (Cons i ids)
  have "max i a \<le> fold max ids (max i a)"
    using Cons.IH [of "max i a"] by simp
  then have "a \<le> fold max ids (max i a)" and "i \<le> fold max ids (max i a)"
    by simp_all
  with Cons.IH [of "max i a"] show ?case by simp
qed

lemma newObjectId_fresh: "newObjectId ids \<notin> set ids"
proof
  assume "newObjectId ids \<in> set ids"
  then have "newObjectId ids \<le> fold max ids 0"
    using fold_max_ge [of 0 ids] by blast
  then show False by (simp add: newObjectId_def)
qed

lemma findById_wellFormed:
  assumes "wellFormedId q"
  shows "\<exists>r. findById idOf coll q = Inr r \<and> (r = None \<longleftrightarrow> \<not> resolves idOf coll q)
           \<and> (\<forall>d. r = Some d \<longrightarrow> Some (idOf d) = idOfRequest q)"
proof (cases q)
  case None
  then show ?thesis by (simp add: findById_def resolves_def idOfRequest_def)
next
  case (Some t)
  with assms obtain i where i: "castObjectId t = Some i"
    by (auto simp: wellFormedId_def)
  have "find (\<lambda>d. idOf d = i) coll = Some d \<Longrightarrow> idOf d = i" for d
    by (auto simp: find_Some_iff)
  with Some i show ?thesis
    by (auto simp: findById_def resolves_def idOfRequest_def find_None_iff)
qed

lemma find_Some_split:
  assumes "find P xs = Some d"
  shows "\<exists>ds1 ds2. xs = ds1 @ d # ds2 \<and> P d \<and> (\<forall>x\<in>set ds1. \<not> P x)"
  using assms
proof (induction xs)
  case Nil
  then show ?case by simp
next
  case (Cons x xs)
  show ?case
  proof (cases "P x")
    case True
    with Cons.prems have "x = d" by simp
    with True have "x # xs = [] @ d # xs \<and> P d \<and> (\<forall>y\<in>set []. \<not> P y)" by simp
    then show ?thesis by blast
  next
    case False
    with Cons obtain ds1 ds2 where "xs = ds1 @ d # ds2" "P d" "\<forall>y\<in>set ds1. \<not> P y"
      by auto
    with False have "x # xs = (x # ds1) @ d # ds2 \<and> P d \<and> (\<forall>y\<in>set (x # ds1). \<not> P y)"
      by simp
    then show ?thesis by blast
  qed
qed

lemma find_absent: "i \<notin> idOf ` set coll \<Longrightarrow> find (\<lambda>d. idOf d = i) coll = None"
  by (auto simp: find_None_iff)

lemma filter_find_Some:
  assumes "find P xs = Some d"
  shows "\<exists>rest. filter P xs = d # rest"
proof -
  from find_Some_split [OF assms] obtain ds1 ds2 where
    "xs = ds1 @ d # ds2" "P d" "\<forall>x\<in>set ds1. \<not> P x" by blast
  then have "filter P xs = d # filter P ds2" by simp
  then show ?thesis by blast
qed

lemma updateOne_split:
  "\<forall>x\<in>set ds1. \<not> P x \<Longrightarrow> P d \<Longrightarrow> updateOne P f (ds1 @ d # ds2) = ds1 @ f d # ds2"
  by (induction ds1) auto

lemma updateOne_absent: "\<forall>x\<in>set ds. \<not> P x \<Longrightarrow> updateOne P f ds = ds"
  by (induction ds) auto

lemma deleteOne_split:
  "\<forall>x\<in>set ds1. \<not> P x \<Longrightarrow> P d \<Longrightarrow> deleteOne P (ds1 @ d # ds2) = ds1 @ ds2"
  by (induction ds1) auto

lemma deleteOne_absent: "\<forall>x\<in>set ds. \<not> P x \<Longrightarrow> deleteOne P ds = ds"
  by (induction ds) auto

lemma find_present: "i \<in> idOf ` set coll \<Longrightarrow> \<exists>d. find (\<lambda>d. idOf d = i) coll = Some d"
  by (cases "find (\<lambda>d. idOf d = i) coll") (auto simp: find_None_iff)

lemma apply_update_eq:
  "apply_update u d =
     \<lparr>name = (case set_name u of None \<Rightarrow> name d | Some v \<Rightarrow> v),
      quantity = (case set_quantity u of None \<Rightarrow> quantity d | Some v \<Rightarrow> v),
      price = (case set_price u of None \<Rightarrow> price d | Some v \<Rightarrow> v),
      image_url = (case set_image u of None \<Rightarrow> image_url d | Some v \<Rightarrow> v),
      p_id = p_id d\<rparr>"
  by (cases d) (simp add: apply_update_def split: option.splits)

lemma cast_field_request:
  "field_request c v r \<longleftrightarrow> cast_field c v = Inr r"
  by (auto simp: field_request_def cast_field_def split: option.splits sum.splits)

lemma cast_field_refused:
  "v = Some j \<Longrightarrow> c j = Inl e \<Longrightarrow> cast_field c v = Inl e"
  by (simp add: cast_field_def)

lemma update_product_run:
  assumes i: "castObjectId pid = Some i" and u: "cast_update sch b = Inr u"
  shows "(i \<notin> p_id ` set (products s) \<longrightarrow>
            update_product sch pid b s = (\<lparr>status = 404, body = Message ProductNotFound\<rparr>, s))
       \<and> (i \<in> p_id ` set (products s) \<longrightarrow>
            (\<exists>ds1 d ds2. products s = ds1 @ d # ds2 \<and> p_id d = i \<and> i \<notin> p_id ` set ds1
               \<and> update_product sch pid b s =
                   (\<lparr>status = 200, body = ProductBody (apply_update u d)\<rparr>,
                    s\<lparr>products := ds1 @ apply_update u d # ds2\<rparr>)))"
proof (intro conjI impI)
  assume absent: "i \<notin> p_id ` set (products s)"
  then have "\<forall>x\<in>set (products s). \<not> p_id x = i" by auto
  then have "updateOne (\<lambda>d. p_id d = i) (apply_update u) (products s) = products s"
    by (rule updateOne_absent)
  with absent i u
  show "update_product sch pid b s = (\<lparr>status = 404, body = Message ProductNotFound\<rparr>, s)"
    by (simp add: update_product_def findByIdAndUpdate_def find_absent)
next
  assume "i \<in> p_id ` set (products s)"
  then obtain d where d: "find (\<lambda>d. p_id d = i) (products s) = Some d"
    using find_present by fastforce
  then obtain ds1 ds2 where split: "products s = ds1 @ d # ds2" "p_id d = i"
    "\<forall>x\<in>set ds1. \<not> p_id x = i"
    using find_Some_split [OF d] by blast
  have upd: "updateOne (\<lambda>d. p_id d = i) (apply_update u) (products s) =
      ds1 @ apply_update u d # ds2"
    using split updateOne_split [of ds1 "\<lambda>d. p_id d = i" d "apply_update u" ds2] by simp
  have "update_product sch pid b s =
          (\<lparr>status = 200, body = ProductBody (apply_update u d)\<rparr>,
           s\<lparr>products := ds1 @ apply_update u d # ds2\<rparr>)"
    using i u d upd by (simp add: update_product_def findByIdAndUpdate_def)
  with split show "\<exists>ds1 d ds2. products s = ds1 @ d # ds2 \<and> p_id d = i \<and> i \<notin> p_id ` set ds1
               \<and> update_product sch pid b s =
                   (\<lparr>status = 200, body = ProductBody (apply_update u d)\<rparr>,
                    s\<lparr>products := ds1 @ apply_update u d # ds2\<rparr>)"
    by (intro exI [of _ ds1] exI [of _ d] exI [of _ ds2]) auto
qed

lemma pipeline_first:
  assumes d: "find (\<lambda>d. o_id d = i) (orders s) = Some d"
    and u: "find (\<lambda>u. u_id u = userId d) (users s) = Some u"
    and p: "find (\<lambda>p. p_id p = productId d) (products s) = Some p"
  shows "\<exists>rest. order_details_pipeline i s = joined d (u\<lparr>password := None\<rparr>) p # rest"
proof -
  obtain ds where ds: "match_id i (orders s) = d # ds"
    using filter_find_Some [OF d] by (auto simp: match_id_def)
  obtain us where us: "filter (\<lambda>u. u_id u = userId d) (users s) = u # us"
    using filter_find_Some [OF u] by blast
  obtain ps where ps: "filter (\<lambda>p. p_id p = productId d) (products s) = p # ps"
    using filter_find_Some [OF p] by blast
  have "\<exists>r1. unwind_userDetails (lookup_users (users s) (match_id i (orders s))) = (d, u) # r1"
    using ds us by (simp add: unwind_userDetails_def lookup_users_def)
  then obtain r1 where
    "unwind_userDetails (lookup_users (users s) (match_id i (orders s))) = (d, u) # r1" ..
  then have "\<exists>r2. unwind_productDetails (lookup_products (products s)
      (unwind_userDetails (lookup_users (users s) (match_id i (orders s))))) = ((d, u), p) # r2"
    using ps by (simp add: unwind_productDetails_def lookup_products_def)
  then show ?thesis
    by (auto simp: order_details_pipeline_def project_password_def)
qed

lemma pipeline_empty:
  assumes "\<forall>d\<in>set (orders s). o_id d = i \<longrightarrow>
             userId d \<notin> u_id ` set (users s) \<or> productId d \<notin> p_id ` set (products s)"
  shows "order_details_pipeline i s = []"
proof -
  let ?du = "unwind_userDetails (lookup_users (users s) (match_id i (orders s)))"
  have du: "d \<in> set (orders s) \<and> o_id d = i \<and> u \<in> set (users s) \<and> u_id u = userId d"
    if "(d, u) \<in> set ?du" for d u
    using that by (auto simp: unwind_userDetails_def lookup_users_def match_id_def)
  have "filter (\<lambda>p. p_id p = productId d) (products s) = []" if "(d, u) \<in> set ?du" for d u
  proof -
    from du [OF that] have "userId d \<in> u_id ` set (users s)" by (metis image_eqI)
    with du [OF that] assms have "productId d \<notin> p_id ` set (products s)" by blast
    then have "\<forall>p\<in>set (products s). p_id p \<noteq> productId d" by (metis image_eqI)
    then show ?thesis by (simp add: filter_empty_conv)
  qed
  then have "unwind_productDetails (lookup_products (products s) ?du) = []"
    by (auto simp: unwind_productDetails_def lookup_products_def)
  then show ?thesis
    by (simp add: order_details_pipeline_def project_password_def)
qed

lemma foldl_group_step:
  "foldl group_step a ds =
     \<lparr>acc_count = acc_count a + length ds,
      acc_sum = acc_sum a + sum_list (map price ds),
      acc_min = fold min (map price ds) (acc_min a),
      acc_max = fold max (map price ds) (acc_max a),
      acc_names = acc_names (foldl group_step a ds),
      acc_first = acc_first a,
      acc_last = last (acc_last a # ds)\<rparr>"
proof (induction ds arbitrary: a)
  case Nil
  then show ?case by simp
next
  case (Cons d ds)
  show ?case
    by (subst foldl_Cons, subst Cons.IH) (simp add: group_step_def min.commute max.commute)
qed

lemma names_group_step:
  "set (acc_names (foldl group_step a ds)) = set (acc_names a) \<union> name ` set ds
   \<and> (distinct (acc_names a) \<longrightarrow> distinct (acc_names (foldl group_step a ds)))"
proof (induction ds arbitrary: a)
  case Nil
  then show ?case by simp
next
  case (Cons d ds)
  have "set (acc_names (group_step a d)) = insert (name d) (set (acc_names a))"
    by (auto simp: group_step_def)
  moreover have "distinct (acc_names a) \<Longrightarrow> distinct (acc_names (group_step a d))"
    by (simp add: group_step_def)
  ultimately show ?case
    using Cons.IH [of "group_step a d"] by auto
qed

lemma fold_min_Min: "fold min xs (x::rat) = Min (set (x # xs))"
  by (metis Min.set_eq_fold)

lemma fold_max_Max: "fold max xs (x::rat) = Max (set (x # xs))"
  by (metis Max.set_eq_fold)

lemma string_le_refl: "string_le t t"
  by (induction t) auto










lemma parseInt_undefined: "parseInt ''undefined'' = None"
  by (simp add: parseInt_def isWhiteSpace_def decDigit_def)

lemma parseInt_0: "parseInt ''0'' = Some 0"
  by (simp add: parseInt_def isWhiteSpace_def decDigit_def radixValue_def)





lemma or_default_nonzero: "d \<noteq> 0 \<Longrightarrow> or_default x d \<noteq> 0"
  by (auto simp: or_default_def split: option.splits)

lemma chance_random_range: "0 \<le> fst (chance_random ch g) \<and> fst (chance_random ch g) < 1"
proof -
  obtain w g' where w: "genrand_int32 ch g = (w, g')" by (cases "genrand_int32 ch g")
  have "unat w < 2 ^ 32" using unsigned_less [of w] by simp
  then have "(of_nat (unat w) :: rat) < of_nat (2 ^ 32)"
    by (simp only: of_nat_less_iff)
  then have "(of_nat (unat w) :: rat) < 4294967296" by simp
  moreover have "(0::rat) \<le> of_nat (unat w)" by (rule of_nat_0_le_iff)
  ultimately show ?thesis by (simp add: chance_random_def w)
qed

lemma chance_integer_range:
  assumes "mn \<le> mx"
  shows "mn \<le> fst (chance_integer ch mn mx g) \<and> fst (chance_integer ch mn mx g) \<le> mx"
proof -
  obtain r g' where r: "chance_random ch g = (r, g')" by (cases "chance_random ch g")
  with chance_random_range [of ch g] have r01: "0 \<le> r" "r < 1" by simp_all
  let ?n = "of_int (mx - mn + 1) :: rat"
  have n: "0 < ?n" using assms by simp
  have lo: "of_int mn \<le> r * ?n + of_int mn" using r01 n by simp
  have "r * ?n < ?n" using r01 n by simp
  then have hi: "r * ?n + of_int mn < of_int (mx + 1)" by simp
  from lo have "mn \<le> \<lfloor>r * ?n + of_int mn\<rfloor>" by (simp add: le_floor_iff)
  moreover from hi have "\<lfloor>r * ?n + of_int mn\<rfloor> < mx + 1" by (simp only: floor_less_iff)
  ultimately show ?thesis by (simp add: chance_integer_def r)
qed

lemma chance_floating_range:
  "1 \<le> fst (chance_floating ch 1 1000 2 g) \<and> fst (chance_floating ch 1 1000 2 g) \<le> 1000
   \<and> (\<exists>n::int. fst (chance_floating ch 1 1000 2 g) = of_int n / 100)"
proof -
  obtain num g' where num: "chance_integer ch 100 100000 g = (num, g')"
    by (cases "chance_integer ch 100 100000 g")
  with chance_integer_range [of 100 100000 ch g] have "100 \<le> num" "num \<le> 100000" by simp_all
  then have "(1::rat) \<le> of_int num / 100" "(of_int num :: rat) / 100 \<le> 1000" by simp_all
  then show ?thesis by (auto simp: chance_floating_def num)
qed

lemma generateProductData_range:
  "1 \<le> quantity (fst (generateProductData ch g)) \<and> quantity (fst (generateProductData ch g)) \<le> 100
   \<and> 1 \<le> price (fst (generateProductData ch g)) \<and> price (fst (generateProductData ch g)) \<le> 1000
   \<and> (\<exists>n::int. price (fst (generateProductData ch g)) = of_int n / 100)"
proof -
  obtain w g1 where w: "chance_word ch g = (w, g1)" by (cases "chance_word ch g")
  obtain n g2 where n: "chance_integer ch 1 100 g1 = (n, g2)" by (cases "chance_integer ch 1 100 g1")
  obtain p g3 where p: "chance_floating ch 1 1000 2 g2 = (p, g3)"
    by (cases "chance_floating ch 1 1000 2 g2")
  obtain u g4 where u: "chance_url ch g3 = (u, g4)" by (cases "chance_url ch g3")
  have "generateProductData ch g = (\<lparr>name = w, quantity = n, price = p, image_url = u\<rparr>, g4)"
    by (simp add: generateProductData_def w n p u)
  moreover have "1 \<le> n \<and> n \<le> 100" using chance_integer_range [of 1 100 ch g1] n by simp
  moreover have "1 \<le> p \<and> p \<le> 1000 \<and> (\<exists>n::int. p = of_int n / 100)"
    using chance_floating_range [of ch g2] p by simp
  ultimately show ?thesis by simp
qed

lemma array_from_length: "length (fst (array_from n f g)) = n"
  by (induction n arbitrary: g) (auto simp: split_def Let_def)

lemma array_from_all:
  assumes "\<And>g. P (fst (f g))"
  shows "\<forall>x\<in>set (fst (array_from n f g)). P x"
  using assms by (induction n arbitrary: g) (auto simp: split_def Let_def)

lemma fold_insert:
  assumes ids: "\<And>i a. idOf (mk i a) = i" and rel: "\<And>i a. R (mk i a) a"
  shows "\<exists>news. fold (\<lambda>a c. c @ [mk (newObjectId (map idOf c)) a]) docs coll = coll @ news
           \<and> list_all2 R news docs
           \<and> distinct (map idOf news)
           \<and> set (map idOf news) \<inter> set (map idOf coll) = {}"
proof (induction docs arbitrary: coll)
  case Nil
  then show ?case by simp
next
  case (Cons a docs)
  let ?i = "newObjectId (map idOf coll)"
  let ?c = "coll @ [mk ?i a]"
  from Cons [of ?c] obtain news where
    news: "fold (\<lambda>a c. c @ [mk (newObjectId (map idOf c)) a]) docs ?c = ?c @ news"
      "list_all2 R news docs" "distinct (map idOf news)"
      "set (map idOf news) \<inter> set (map idOf ?c) = {}"
    by blast
  have fresh: "?i \<notin> set (map idOf coll)" by (rule newObjectId_fresh)
  have "fold (\<lambda>a c. c @ [mk (newObjectId (map idOf c)) a]) (a # docs) coll = coll @ (mk ?i a # news)"
    using news(1) by simp
  moreover have "list_all2 R (mk ?i a # news) (a # docs)"
    using news(2) rel by simp
  moreover have "distinct (map idOf (mk ?i a # news))"
    using news(3,4) ids by auto
  moreover have "set (map idOf (mk ?i a # news)) \<inter> set (map idOf coll) = {}"
    using news(4) fresh ids by auto
  ultimately show ?case by blast
qed

lemma insertMany_Inr:
  assumes "insertMany valid mk idOf docs coll = Inr coll'"
    and ids: "\<And>i a. idOf (mk i a) = i" and rel: "\<And>i a. R (mk i a) a"
  shows "\<exists>news. coll' = coll @ news \<and> list_all2 R news docs \<and> distinct (map idOf news)
           \<and> set (map idOf news) \<inter> set (map idOf coll) = {}"
proof -
  from assms(1) have "coll' = fold (\<lambda>a c. c @ [mk (newObjectId (map idOf c)) a]) docs coll"
    by (simp add: insertMany_def split: if_splits)
  with fold_insert [of idOf mk R docs coll, OF ids rel] show ?thesis by simp
qed

lemma add_initial_data_step:
  assumes run: "add_initial_data sch ch g s = (r, g1, s1)" and ok: "status r = 200"
  shows "\<exists>us ps. length us = 10 \<and> length ps = 10
      \<and> users s1 = users s @ us \<and> products s1 = products s @ ps \<and> orders s1 = orders s
      \<and> list_all2 (\<lambda>u a. firstName u = firstName a \<and> lastName u = lastName a \<and> email u = email a)
           us (fst (array_from 10 (generateUserData ch) g))
      \<and> list_all2 (\<lambda>p a. name p = name a \<and> quantity p = quantity a \<and> price p = price a
                        \<and> image_url p = image_url a)
           ps (fst (array_from 10 (generateProductData ch)
                      (snd (array_from 10 (generateUserData ch) g))))
      \<and> distinct (map u_id us) \<and> set (map u_id us) \<inter> set (map u_id (users s)) = {}
      \<and> distinct (map p_id ps) \<and> set (map p_id ps) \<inter> set (map p_id (products s)) = {}"
proof -
  let ?Ru = "\<lambda>(u::user) (a::user_data).
    firstName u = firstName a \<and> lastName u = lastName a \<and> email u = email a"
  let ?Rp = "\<lambda>(p::product) (a::product_data).
    name p = name a \<and> quantity p = quantity a \<and> price p = price a \<and> image_url p = image_url a"
  obtain usersData ga where UD: "array_from 10 (generateUserData ch) g = (usersData, ga)"
    by (cases "array_from 10 (generateUserData ch) g")
  obtain productsData gb where PD: "array_from 10 (generateProductData ch) ga = (productsData, gb)"
    by (cases "array_from 10 (generateProductData ch) ga")
  have lenU: "length usersData = 10"
    using array_from_length [of 10 "generateUserData ch" g] UD by simp
  have lenP: "length productsData = 10"
    using array_from_length [of 10 "generateProductData ch" ga] PD by simp
  from run ok obtain users' where U: "insertMany (valid_user sch) new_user u_id usersData (users s) = Inr users'"
    by (cases "insertMany (valid_user sch) new_user u_id usersData (users s)")
       (auto simp: add_initial_data_def UD)
  from run ok U obtain products' where
    P: "insertMany (valid_product sch) new_product p_id productsData (products s) = Inr products'"
    by (cases "insertMany (valid_product sch) new_product p_id productsData (products s)")
       (auto simp: add_initial_data_def UD PD)
  from run U P have s1: "s1 = s\<lparr>users := users', products := products'\<rparr>"
    by (simp add: add_initial_data_def UD PD)
  obtain us where us: "users' = users s @ us" "list_all2 ?Ru us usersData"
    "distinct (map u_id us)" "set (map u_id us) \<inter> set (map u_id (users s)) = {}"
    using insertMany_Inr [OF U, of ?Ru] by (auto simp: new_user_def)
  obtain ps where ps: "products' = products s @ ps" "list_all2 ?Rp ps productsData"
    "distinct (map p_id ps)" "set (map p_id ps) \<inter> set (map p_id (products s)) = {}"
    using insertMany_Inr [OF P, of ?Rp] by (auto simp: new_product_def)
  have "length us = 10" "length ps = 10"
    using us(2) ps(2) lenU lenP by (auto dest: list_all2_lengthD)
  with s1 us ps UD PD show ?thesis
    by (intro exI [of _ us] exI [of _ ps]) simp
qed

lemma add_initial_data_open:
  "status (fst (add_initial_data open_schemas ch g s)) = 200"
  by (simp add: add_initial_data_def insertMany_def open_schemas_def split_def list_all_iff Let_def)

lemma match_here_literal:
  "CHR ''.'' \<notin> set t \<Longrightarrow>
     match_here t n \<longleftrightarrow> (\<exists>post. map lower n = map lower t @ post)"
proof (induction t n rule: match_here.induct)
  case (3 p ps c cs)
  then show ?case by (auto simp: atom_matches_def)
qed auto

lemma match_anywhere_literal:
  assumes "CHR ''.'' \<notin> set t"
  shows "match_anywhere t n \<longleftrightarrow> (\<exists>pre post. map lower n = pre @ map lower t @ post)"
proof (induction n)
  case Nil
  then show ?case using match_here_literal [OF assms, of "[]"] by auto
next
  case (Cons c cs)
  have "(\<exists>pre post. map lower (c # cs) = pre @ map lower t @ post) \<longleftrightarrow>
        (\<exists>post. map lower (c # cs) = map lower t @ post)
        \<or> (\<exists>pre post. map lower cs = pre @ map lower t @ post)"
    (is "?L \<longleftrightarrow> ?A \<or> ?B")
  proof
    assume ?L
    then obtain pre post where e: "map lower (c # cs) = pre @ map lower t @ post" by blast
    show "?A \<or> ?B"
    proof (cases pre)
      case Nil
      with e show ?thesis by auto
    next
      case (Cons x xs)
      with e have "map lower cs = xs @ map lower t @ post" by simp
      then show ?thesis by blast
    qed
  next
    assume "?A \<or> ?B"
    then show ?L
    proof
      assume ?A
      then obtain post where "map lower (c # cs) = [] @ map lower t @ post" by auto
      then show ?L by blast
    next
      assume ?B
      then obtain pre post where "map lower cs = pre @ map lower t @ post" by blast
      then have "map lower (c # cs) = (lower c # pre) @ map lower t @ post" by simp
      then show ?L by blast
    qed
  qed
  with Cons match_here_literal [OF assms, of "c # cs"] show ?case by simp
qed

lemma wildcard_regex_literal:
  assumes "\<not> list_ex (\<lambda>c. c \<in> set syntax_chars) t" and "CHR ''.'' \<notin> set t"
  shows "\<exists>m. wildcard_regex t = Some m
           \<and> (\<forall>n. m n \<longleftrightarrow> (\<exists>pre post. map lower n = pre @ map lower t @ post))"
  using assms match_anywhere_literal [OF assms(2)] by (simp add: wildcard_regex_def)

lemma create_order_unique:
  assumes "unique_ids s"
  shows "unique_ids (snd (create_order now req s))"
proof -
  have "newObjectId (map o_id (orders s)) \<notin> set (map o_id (orders s))"
    by (rule newObjectId_fresh)
  with assms show ?thesis
    by (auto simp: unique_ids_def create_order_def save_Order_def
        split: sum.splits option.splits)
qed

lemma map_updateOne: "(\<And>d. g (f d) = g d) \<Longrightarrow> map g (updateOne P f ds) = map g ds"
  by (induction ds) auto

lemma set_deleteOne: "set (deleteOne P ds) \<subseteq> set ds"
  by (induction ds) auto

lemma distinct_deleteOne: "distinct (map g ds) \<Longrightarrow> distinct (map g (deleteOne P ds))"
proof (induction ds)
  case Nil
  then show ?case by simp
next
  case (Cons d ds)
  then show ?case using set_deleteOne [of P ds] by auto
qed

lemma update_product_unique:
  assumes "unique_ids s"
  shows "unique_ids (snd (update_product sch pid b s))"
proof -
  have "map p_id (updateOne P (apply_update u) (products s)) = map p_id (products s)" for P u
    by (rule map_updateOne) (simp add: apply_update_def)
  with assms show ?thesis
    by (auto simp: unique_ids_def update_product_def findByIdAndUpdate_def
        split: sum.splits option.splits)
qed

lemma delete_product_unique:
  assumes "unique_ids s"
  shows "unique_ids (snd (delete_product pid s))"
  using assms distinct_deleteOne [of p_id "products s"]
  by (auto simp: unique_ids_def delete_product_def findByIdAndDelete_def
      split: sum.splits option.splits)

lemma insertMany_unique:
  assumes "insertMany valid mk idOf docs coll = Inr coll'"
    and "\<And>i a. idOf (mk i a) = i" and "distinct (map idOf coll)"
  shows "distinct (map idOf coll')"
proof -
  from insertMany_Inr [OF assms(1), of "\<lambda>d a. True"] assms(2) obtain news where
    "coll' = coll @ news" "distinct (map idOf news)"
    "set (map idOf news) \<inter> set (map idOf coll) = {}"
    by auto
  with assms(3) show ?thesis by auto
qed

lemma add_initial_data_unique:
  assumes "unique_ids s"
  shows "unique_ids (snd (snd (add_initial_data sch ch g s)))"
proof -
  obtain usersData ga where UD: "array_from 10 (generateUserData ch) g = (usersData, ga)"
    by (cases "array_from 10 (generateUserData ch) g")
  obtain productsData gb where PD: "array_from 10 (generateProductData ch) ga = (productsData, gb)"
    by (cases "array_from 10 (generateProductData ch) ga")
  have U: "distinct (map u_id users')"
    if "insertMany (valid_user sch) new_user u_id usersData (users s) = Inr users'" for users'
    using insertMany_unique [OF that] assms by (simp add: new_user_def unique_ids_def)
  have P: "distinct (map p_id products')"
    if "insertMany (valid_product sch) new_product p_id productsData (products s) = Inr products'"
    for products'
    using insertMany_unique [OF that] assms by (simp add: new_product_def unique_ids_def)
  from assms U P show ?thesis
    by (auto simp: add_initial_data_def UD PD unique_ids_def split: sum.splits)
qed

lemma floor_rat_numeral: "\<lfloor>(numeral a :: rat) / numeral b\<rfloor> = numeral a div numeral b"
  using floor_divide_of_int_eq [of "numeral a" "numeral b", where ?'a = rat] by simp

lemma array_from_states:
  "\<exists>gs. length gs = Suc n \<and> gs ! 0 = g \<and> gs ! n = snd (array_from n f g)
     \<and> (\<forall>k<n. fst (array_from n f g) ! k = fst (f (gs ! k)) \<and> gs ! Suc k = snd (f (gs ! k)))"
proof (induction n arbitrary: g)
  case 0
  show ?case by (intro exI [of _ "[g]"]) simp
next
  case (Suc n)
  obtain x g1 where fg: "f g = (x, g1)" by (cases "f g")
  obtain xs g2 where rest: "array_from n f g1 = (xs, g2)" by (cases "array_from n f g1")
  from Suc [of g1] rest obtain gs where
    gs: "length gs = Suc n" "gs ! 0 = g1" "gs ! n = g2"
      "\<forall>k<n. xs ! k = fst (f (gs ! k)) \<and> gs ! Suc k = snd (f (gs ! k))"
    by auto
  have run: "array_from (Suc n) f g = (x # xs, g2)"
    by (simp add: fg rest)
  have "\<forall>k<Suc n. (x # xs) ! k = fst (f ((g # gs) ! k))
      \<and> (g # gs) ! Suc k = snd (f ((g # gs) ! k))"
  proof (intro allI impI)
    fix k assume "k < Suc n"
    then show "(x # xs) ! k = fst (f ((g # gs) ! k))
      \<and> (g # gs) ! Suc k = snd (f ((g # gs) ! k))"
      using gs fg by (cases k) auto
  qed
  with gs run show ?case
    by (intro exI [of _ "g # gs"]) simp
qed

lemma generateUserData_calls:
  "\<exists>f a l b e c. chance_first ch g = (f, a) \<and> chance_last ch a = (l, b)
     \<and> chance_email ch b = (e, c)
     \<and> generateUserData ch g = (\<lparr>firstName = f, lastName = l, email = e\<rparr>, c)"
proof -
  obtain f a where 1: "chance_first ch g = (f, a)" by (cases "chance_first ch g")
  obtain l b where 2: "chance_last ch a = (l, b)" by (cases "chance_last ch a")
  obtain e c where 3: "chance_email ch b = (e, c)" by (cases "chance_email ch b")
  show ?thesis by (simp add: generateUserData_def 1 2 3)
qed

lemma generateProductData_calls:
  "\<exists>w a r b r' c u d. chance_word ch g = (w, a) \<and> genrand_int32 ch a = (r, b)
     \<and> genrand_int32 ch b = (r', c) \<and> chance_url ch c = (u, d)
     \<and> generateProductData ch g =
         (\<lparr>name = w,
           quantity = \<lfloor>(of_nat (unat r) / 4294967296 :: rat) * 100 + 1\<rfloor>,
           price = of_int \<lfloor>(of_nat (unat r') / 4294967296 :: rat) * 99901 + 100\<rfloor> / 100,
           image_url = u\<rparr>, d)"
proof -
  obtain w a where 1: "chance_word ch g = (w, a)" by (cases "chance_word ch g")
  obtain r b where 2: "genrand_int32 ch a = (r, b)" by (cases "genrand_int32 ch a")
  obtain r' c where 3: "genrand_int32 ch b = (r', c)" by (cases "genrand_int32 ch b")
  obtain u d where 4: "chance_url ch c = (u, d)" by (cases "chance_url ch c")
  have "generateProductData ch g =
         (\<lparr>name = w,
           quantity = \<lfloor>(of_nat (unat r) / 4294967296 :: rat) * 100 + 1\<rfloor>,
           price = of_int \<lfloor>(of_nat (unat r') / 4294967296 :: rat) * 99901 + 100\<rfloor> / 100,
           image_url = u\<rparr>, d)"
    by (simp add: generateProductData_def chance_integer_def chance_floating_def
        chance_random_def 1 2 3 4)
  with 1 2 3 4 show ?thesis by blast
qed

lemma add_initial_data_state:
  assumes run: "add_initial_data sch ch g s = (r, g1, s1)"
  shows "status r = 200 \<longrightarrow>
    g1 = snd (array_from 10 (generateProductData ch)
               (snd (array_from 10 (generateUserData ch) g)))"
  using run
  by (auto simp: add_initial_data_def split_def Let_def split: sum.splits)

lemma generateUserData_counting:
  "generateUserData counting_chance g =
     (\<lparr>firstName = names7 ! (g mod 7), lastName = names7 ! (Suc g mod 7) @ ''son'',
       email = names7 ! (Suc (Suc g) mod 7) @ ''@example.com''\<rparr>, g + 3)"
  by (simp add: generateUserData_def counting_chance_def)

lemma generateProductData_counting:
  "generateProductData counting_chance g =
     (\<lparr>name = names7 ! (g mod 7) @ ''ware'',
       quantity = \<lfloor>(of_nat (unat (draws5 ! (Suc g mod 5))) / 4294967296 :: rat) * 100 + 1\<rfloor>,
       price = of_int \<lfloor>(of_nat (unat (draws5 ! (Suc (Suc g) mod 5))) / 4294967296 :: rat)
                 * 99901 + 100\<rfloor> / 100,
       image_url = ''http://example.com/'' @ names7 ! (Suc (Suc (Suc g)) mod 7)\<rparr>, g + 4)"
  by (simp add: generateProductData_def chance_integer_def chance_floating_def
      chance_random_def counting_chance_def)

lemma array_from_counting:
  assumes "\<And>g. f g = (h g, g + c)"
  shows "array_from n f (g::nat) = (map (\<lambda>k. h (g + c * k)) [0..<n], g + c * n)"
proof (induction n arbitrary: g)
  case 0
  show ?case by simp
next
  case (Suc n)
  have "[0..<Suc n] = 0 # map Suc [0..<n]"
    by (simp add: upt_conv_Cons map_Suc_upt del: upt_Suc)
  then have "map (\<lambda>k. h (g + c * k)) [0..<Suc n] =
      h g # map (\<lambda>k. h (g + c + c * k)) [0..<n]"
    by (simp add: comp_def add.assoc del: upt_Suc)
  with Suc [of "g + c"] show ?case
    by (simp add: assms add.assoc del: upt_Suc)
qed

lemma upt_10: "[0..<10] = [0, 1, 2, 3, 4, 5, 6, 7, 8, 9]"
  by (simp add: upt_rec)

lemma counted_data:
  "array_from 10 (generateUserData counting_chance) 0 =
     ([\<lparr>firstName = ''ada'', lastName = ''bobson'', email = ''cy@example.com''\<rparr>,
       \<lparr>firstName = ''dee'', lastName = ''eveson'', email = ''fay@example.com''\<rparr>,
       \<lparr>firstName = ''gus'', lastName = ''adason'', email = ''bob@example.com''\<rparr>,
       \<lparr>firstName = ''cy'', lastName = ''deeson'', email = ''eve@example.com''\<rparr>,
       \<lparr>firstName = ''fay'', lastName = ''gusson'', email = ''ada@example.com''\<rparr>,
       \<lparr>firstName = ''bob'', lastName = ''cyson'', email = ''dee@example.com''\<rparr>,
       \<lparr>firstName = ''eve'', lastName = ''fayson'', email = ''gus@example.com''\<rparr>,
       \<lparr>firstName = ''ada'', lastName = ''bobson'', email = ''cy@example.com''\<rparr>,
       \<lparr>firstName = ''dee'', lastName = ''eveson'', email = ''fay@example.com''\<rparr>,
       \<lparr>firstName = ''gus'', lastName = ''adason'', email = ''bob@example.com''\<rparr>], 30)"
  by (simp add: array_from_counting [OF generateUserData_counting] upt_10 names7_def)

lemma counted_products:
  "array_from 10 (generateProductData counting_chance) 30 =
     ([\<lparr>name = ''cyware'', quantity = 26, price = 1001 / 2,
        image_url = ''http://example.com/fay''\<rparr>,
       \<lparr>name = ''gusware'', quantity = 1, price = 1003 / 4,
        image_url = ''http://example.com/cy''\<rparr>,
       \<lparr>name = ''deeware'', quantity = 100, price = 1,
        image_url = ''http://example.com/gus''\<rparr>,
       \<lparr>name = ''adaware'', quantity = 76, price = 1000,
        image_url = ''http://example.com/dee''\<rparr>,
       \<lparr>name = ''eveware'', quantity = 51, price = 3001 / 4,
        image_url = ''http://example.com/ada''\<rparr>,
       \<lparr>name = ''bobware'', quantity = 26, price = 1001 / 2,
        image_url = ''http://example.com/eve''\<rparr>,
       \<lparr>name = ''fayware'', quantity = 1, price = 1003 / 4,
        image_url = ''http://example.com/bob''\<rparr>,
       \<lparr>name = ''cyware'', quantity = 100, price = 1,
        image_url = ''http://example.com/fay''\<rparr>,
       \<lparr>name = ''gusware'', quantity = 76, price = 1000,
        image_url = ''http://example.com/cy''\<rparr>,
       \<lparr>name = ''deeware'', quantity = 51, price = 3001 / 4,
        image_url = ''http://example.com/gus''\<rparr>], 70)"
  by (simp add: array_from_counting [OF generateProductData_counting] upt_10 names7_def
      draws5_def floor_rat_numeral)

subsection \<open>POST /create-order\<close>

text \<open>
  C1, as amended. For every POST /create-order request whose two identifiers are well formed
  (absent, or 24 hexadecimal digits): if the user identifier does not resolve to a User the
  response is 400 with the user-not-found message and the database is unchanged; if the user
  resolves and the product identifier does not, the response is 400 with the
  product-not-found message and the database is unchanged; if both resolve, the response is
  201 with the success message and the database gains exactly one Order, under a fresh
  identifier, stamped with the current time and holding both identifiers.
\<close>

theorem create_order_cases:
  assumes "wellFormedId (req_userId req)" and "wellFormedId (req_productId req)"
  shows "(\<not> resolves u_id (users s) (req_userId req) \<longrightarrow>
            create_order now req s = (\<lparr>status = 400, body = Message UserNotFound\<rparr>, s))
       \<and> (resolves u_id (users s) (req_userId req) \<and>
          \<not> resolves p_id (products s) (req_productId req) \<longrightarrow>
            create_order now req s = (\<lparr>status = 400, body = Message ProductNotFound\<rparr>, s))
       \<and> (resolves u_id (users s) (req_userId req) \<and>
          resolves p_id (products s) (req_productId req) \<longrightarrow>
            (\<exists>u p i. idOfRequest (req_userId req) = Some u
               \<and> idOfRequest (req_productId req) = Some p
               \<and> i \<notin> o_id ` set (orders s)
               \<and> create_order now req s =
                   (\<lparr>status = 201, body = Message OrderCreated\<rparr>,
                    s\<lparr>orders := orders s @
                        [\<lparr>o_id = i, createdAt = now, userId = u, productId = p\<rparr>]\<rparr>)))"
proof -
  obtain ru where ru: "findById u_id (users s) (req_userId req) = Inr ru"
    and ru_None: "ru = None \<longleftrightarrow> \<not> resolves u_id (users s) (req_userId req)"
    using findById_wellFormed [OF assms(1)] by blast
  obtain rp where rp: "findById p_id (products s) (req_productId req) = Inr rp"
    and rp_None: "rp = None \<longleftrightarrow> \<not> resolves p_id (products s) (req_productId req)"
    using findById_wellFormed [OF assms(2)] by blast
  have fresh: "newObjectId (map o_id (orders s)) \<notin> o_id ` set (orders s)"
    using newObjectId_fresh [of "map o_id (orders s)"] by simp
  show ?thesis
    using ru ru_None rp rp_None fresh
    by (auto simp: create_order_def save_Order_def resolves_def split: option.splits)
qed

theorem create_order_cases_witness:
  "create_order 5 \<lparr>req_userId = Some id3, req_productId = Some id2\<rparr> shop =
     (\<lparr>status = 400, body = Message UserNotFound\<rparr>, shop)
   \<and> create_order 5 \<lparr>req_userId = Some id1, req_productId = None\<rparr> shop =
     (\<lparr>status = 400, body = Message ProductNotFound\<rparr>, shop)
   \<and> status (fst (create_order 5 \<lparr>req_userId = Some id1, req_productId = Some id2\<rparr> shop)) = 201
   \<and> orders (snd (create_order 5 \<lparr>req_userId = Some id1, req_productId = Some id2\<rparr> shop)) =
       [\<lparr>o_id = 1, createdAt = 5, userId = 1, productId = 2\<rparr>]"
proof -
  have a: "create_order 5 \<lparr>req_userId = Some id3, req_productId = Some id2\<rparr> shop =
     (\<lparr>status = 400, body = Message UserNotFound\<rparr>, shop)"
    using create_order_cases [of "\<lparr>req_userId = Some id3, req_productId = Some id2\<rparr>" shop 5]
    by (simp add: wellFormedId_def resolves_def idOfRequest_def shop_def alice_def)
  have b: "create_order 5 \<lparr>req_userId = Some id1, req_productId = None\<rparr> shop =
     (\<lparr>status = 400, body = Message ProductNotFound\<rparr>, shop)"
    using create_order_cases [of "\<lparr>req_userId = Some id1, req_productId = None\<rparr>" shop 5]
    by (simp add: wellFormedId_def resolves_def idOfRequest_def shop_def alice_def)
  have c: "\<exists>i. i \<notin> o_id ` set (orders shop) \<and>
     create_order 5 \<lparr>req_userId = Some id1, req_productId = Some id2\<rparr> shop =
       (\<lparr>status = 201, body = Message OrderCreated\<rparr>,
        shop\<lparr>orders := orders shop @ [\<lparr>o_id = i, createdAt = 5, userId = 1, productId = 2\<rparr>]\<rparr>)"
    using create_order_cases [of "\<lparr>req_userId = Some id1, req_productId = Some id2\<rparr>" shop 5]
    by (simp add: wellFormedId_def resolves_def idOfRequest_def shop_def alice_def pen_def)
  have d: "create_order 5 \<lparr>req_userId = Some id1, req_productId = Some id2\<rparr> shop =
       (\<lparr>status = 201, body = Message OrderCreated\<rparr>,
        shop\<lparr>orders := [\<lparr>o_id = 1, createdAt = 5, userId = 1, productId = 2\<rparr>]\<rparr>)"
    by (simp add: create_order_def findById_def save_Order_def idOfRequest_def newObjectId_def
        shop_def alice_def pen_def)
  from a b c d show ?thesis by simp
qed

theorem create_order_cases_counterexample:
  "\<not> resolves u_id (users shop) (Some ''abc'')
   \<and> create_order 5 \<lparr>req_userId = Some ''abc'', req_productId = Some id2\<rparr> shop =
       (\<lparr>status = 500, body = Message OrderCreateError\<rparr>, shop)"
  by (simp add: create_order_def findById_def resolves_def idOfRequest_def)

text \<open>
  C9, as amended. For every POST /create-order request whose two identifiers are well formed
  and both fail to resolve, the response is 400 with the user-not-found message and the
  database is unchanged. (Both lookups run before the first test, so a malformed product
  identifier raises before the user test is reached.)
\<close>

theorem create_order_both_unresolved:
  assumes "wellFormedId (req_userId req)" and "wellFormedId (req_productId req)"
    and "\<not> resolves u_id (users s) (req_userId req)"
    and "\<not> resolves p_id (products s) (req_productId req)"
  shows "create_order now req s = (\<lparr>status = 400, body = Message UserNotFound\<rparr>, s)"
  using assms
  by (auto simp: create_order_def findById_def wellFormedId_def resolves_def idOfRequest_def
      find_None_iff split: option.splits)

theorem create_order_both_unresolved_witness:
  "wellFormedId (Some id3) \<and> wellFormedId (Some id1)
   \<and> \<not> resolves u_id (users shop) (Some id3) \<and> \<not> resolves p_id (products shop) (Some id1)
   \<and> create_order 5 \<lparr>req_userId = Some id3, req_productId = Some id1\<rparr> shop =
       (\<lparr>status = 400, body = Message UserNotFound\<rparr>, shop)"
proof -
  have h: "wellFormedId (Some id3) \<and> wellFormedId (Some id1)
     \<and> \<not> resolves u_id (users shop) (Some id3) \<and> \<not> resolves p_id (products shop) (Some id1)"
    by (simp add: wellFormedId_def resolves_def idOfRequest_def shop_def alice_def pen_def)
  with create_order_both_unresolved
         [of "\<lparr>req_userId = Some id3, req_productId = Some id1\<rparr>" shop 5]
  show ?thesis by simp
qed

theorem create_order_both_unresolved_counterexample:
  "\<not> resolves u_id (users shop) (Some id3) \<and> \<not> resolves p_id (products shop) (Some ''abc'')
   \<and> create_order 5 \<lparr>req_userId = Some id3, req_productId = Some ''abc''\<rparr> shop =
       (\<lparr>status = 500, body = Message OrderCreateError\<rparr>, shop)"
  by (simp add: create_order_def findById_def resolves_def idOfRequest_def shop_def alice_def)

subsection \<open>PUT /products/:productId\<close>

text \<open>
  C5, as amended. For every PUT /products/:productId request whose identifier is well formed
  (24 hexadecimal digits): when the schema's cast refuses a submitted field the response is
  500 and the database is unchanged; when it accepts every submitted field, then if the
  identifier does not resolve to a Product the response is 404 with the not-found message
  and the database is unchanged, and if it resolves, each of name, quantity, price and image
  that the body submits is replaced by the value the cast makes of it, each one the body
  leaves out keeps its stored value, every other document stays as it is, and the response
  is 200 with the record after the update. In particular, with casts that take a value of
  the field's type as it is, a body that submits all four fields with such values is
  answered by the record that holds exactly the submitted values under the same identifier.
\<close>

theorem update_product_cases:
  assumes "castObjectId pid = Some i"
  shows "(\<forall>j e. (body_name b = Some j \<and> cast_name sch j = Inl e)
             \<or> (body_quantity b = Some j \<and> cast_quantity sch j = Inl e)
             \<or> (body_price b = Some j \<and> cast_price sch j = Inl e)
             \<or> (body_image b = Some j \<and> cast_image sch j = Inl e) \<longrightarrow>
            update_product sch pid b s =
              (\<lparr>status = 500, body = Message ProductUpdateError\<rparr>, s))
       \<and> (\<forall>n k x u.
             field_request (cast_name sch) (body_name b) n
           \<and> field_request (cast_quantity sch) (body_quantity b) k
           \<and> field_request (cast_price sch) (body_price b) x
           \<and> field_request (cast_image sch) (body_image b) u \<longrightarrow>
            (i \<notin> p_id ` set (products s) \<longrightarrow>
               update_product sch pid b s =
                 (\<lparr>status = 404, body = Message ProductNotFound\<rparr>, s))
          \<and> (i \<in> p_id ` set (products s) \<longrightarrow>
               (\<exists>ds1 d ds2 d'. products s = ds1 @ d # ds2 \<and> p_id d = i
                  \<and> i \<notin> p_id ` set ds1
                  \<and> update_product sch pid b s =
                      (\<lparr>status = 200, body = ProductBody d'\<rparr>,
                       s\<lparr>products := ds1 @ d' # ds2\<rparr>)
                  \<and> d' =
                      \<lparr>name = (case n of None \<Rightarrow> name d | Some v \<Rightarrow> v),
                       quantity = (case k of None \<Rightarrow> quantity d | Some v \<Rightarrow> v),
                       price = (case x of None \<Rightarrow> price d | Some v \<Rightarrow> v),
                       image_url = (case u of None \<Rightarrow> image_url d | Some v \<Rightarrow> v),
                       p_id = i\<rparr>)))
       \<and> (\<forall>n k x u.
             cast_name sch (JString n) = Inr n
           \<and> cast_quantity sch (JNumber (of_int k)) = Inr k
           \<and> cast_price sch (JNumber x) = Inr x
           \<and> cast_image sch (JString u) = Inr u
           \<and> b = \<lparr>body_name = Some (JString n), body_quantity = Some (JNumber (of_int k)),
                   body_price = Some (JNumber x), body_image = Some (JString u)\<rparr>
           \<and> i \<in> p_id ` set (products s) \<longrightarrow>
            fst (update_product sch pid b s) =
              \<lparr>status = 200,
               body = ProductBody
                 \<lparr>name = n, quantity = k, price = x, image_url = u, p_id = i\<rparr>\<rparr>)"
proof -
  have refused: "update_product sch pid b s =
      (\<lparr>status = 500, body = Message ProductUpdateError\<rparr>, s)"
    if "(body_name b = Some j \<and> cast_name sch j = Inl e)
        \<or> (body_quantity b = Some j \<and> cast_quantity sch j = Inl e)
        \<or> (body_price b = Some j \<and> cast_price sch j = Inl e)
        \<or> (body_image b = Some j \<and> cast_image sch j = Inl e)" for j e
  proof -
    from that have "\<exists>e. cast_update sch b = Inl e"
      by (auto simp: cast_update_def cast_field_def split: sum.splits option.splits)
    with assms show ?thesis
      by (auto simp: update_product_def findByIdAndUpdate_def)
  qed
  have accepted: "(i \<notin> p_id ` set (products s) \<longrightarrow>
               update_product sch pid b s =
                 (\<lparr>status = 404, body = Message ProductNotFound\<rparr>, s))
          \<and> (i \<in> p_id ` set (products s) \<longrightarrow>
               (\<exists>ds1 d ds2 d'. products s = ds1 @ d # ds2 \<and> p_id d = i
                  \<and> i \<notin> p_id ` set ds1
                  \<and> update_product sch pid b s =
                      (\<lparr>status = 200, body = ProductBody d'\<rparr>,
                       s\<lparr>products := ds1 @ d' # ds2\<rparr>)
                  \<and> d' =
                      \<lparr>name = (case n of None \<Rightarrow> name d | Some v \<Rightarrow> v),
                       quantity = (case k of None \<Rightarrow> quantity d | Some v \<Rightarrow> v),
                       price = (case x of None \<Rightarrow> price d | Some v \<Rightarrow> v),
                       image_url = (case u of None \<Rightarrow> image_url d | Some v \<Rightarrow> v),
                       p_id = i\<rparr>))"
    if "field_request (cast_name sch) (body_name b) n
           \<and> field_request (cast_quantity sch) (body_quantity b) k
           \<and> field_request (cast_price sch) (body_price b) x
           \<and> field_request (cast_image sch) (body_image b) u" for n k x u
  proof -
    let ?u = "\<lparr>set_name = n, set_quantity = k, set_price = x, set_image = u\<rparr>"
    from that have cu: "cast_update sch b = Inr ?u"
      by (simp add: cast_update_def cast_field_request)
    from update_product_run [OF assms cu, of s] show ?thesis
    proof (intro conjI impI)
      assume "i \<notin> p_id ` set (products s)"
      with update_product_run [OF assms cu, of s]
      show "update_product sch pid b s =
          (\<lparr>status = 404, body = Message ProductNotFound\<rparr>, s)"
        by simp
    next
      assume "i \<in> p_id ` set (products s)"
      with update_product_run [OF assms cu, of s] obtain ds1 d ds2 where
        split: "products s = ds1 @ d # ds2" "p_id d = i" "i \<notin> p_id ` set ds1" and
        run: "update_product sch pid b s =
                (\<lparr>status = 200, body = ProductBody (apply_update ?u d)\<rparr>,
                 s\<lparr>products := ds1 @ apply_update ?u d # ds2\<rparr>)"
        by blast
      from split run
      show "\<exists>ds1 d ds2 d'. products s = ds1 @ d # ds2 \<and> p_id d = i
                  \<and> i \<notin> p_id ` set ds1
                  \<and> update_product sch pid b s =
                      (\<lparr>status = 200, body = ProductBody d'\<rparr>,
                       s\<lparr>products := ds1 @ d' # ds2\<rparr>)
                  \<and> d' =
                      \<lparr>name = (case n of None \<Rightarrow> name d | Some v \<Rightarrow> v),
                       quantity = (case k of None \<Rightarrow> quantity d | Some v \<Rightarrow> v),
                       price = (case x of None \<Rightarrow> price d | Some v \<Rightarrow> v),
                       image_url = (case u of None \<Rightarrow> image_url d | Some v \<Rightarrow> v),
                       p_id = i\<rparr>"
        by (intro exI [of _ ds1] exI [of _ d] exI [of _ ds2]
            exI [of _ "apply_update ?u d"]) (simp add: apply_update_eq)
    qed
  qed
  have full: "fst (update_product sch pid b s) =
              \<lparr>status = 200,
               body = ProductBody
                 \<lparr>name = n, quantity = k, price = x, image_url = u, p_id = i\<rparr>\<rparr>"
    if "cast_name sch (JString n) = Inr n
           \<and> cast_quantity sch (JNumber (of_int k)) = Inr k
           \<and> cast_price sch (JNumber x) = Inr x
           \<and> cast_image sch (JString u) = Inr u
           \<and> b = \<lparr>body_name = Some (JString n), body_quantity = Some (JNumber (of_int k)),
                   body_price = Some (JNumber x), body_image = Some (JString u)\<rparr>
           \<and> i \<in> p_id ` set (products s)" for n k x u
  proof -
    from that have "field_request (cast_name sch) (body_name b) (Some n)
           \<and> field_request (cast_quantity sch) (body_quantity b) (Some k)
           \<and> field_request (cast_price sch) (body_price b) (Some x)
           \<and> field_request (cast_image sch) (body_image b) (Some u)"
      by (simp add: field_request_def)
    from accepted [OF this] that show ?thesis by auto
  qed
  from refused accepted full show ?thesis by blast
qed

theorem update_product_cases_witness:
  "update_product strict_casts id1
     \<lparr>body_name = Some (JString ''mug''), body_quantity = None, body_price = None,
      body_image = None\<rparr> market =
     (\<lparr>status = 404, body = Message ProductNotFound\<rparr>, market)
   \<and> update_product strict_casts id3
       \<lparr>body_name = Some (JString ''mug''), body_quantity = Some (JNumber 1),
        body_price = Some (JNumber 5), body_image = Some (JString ''u'')\<rparr> market =
     (\<lparr>status = 200,
       body = ProductBody \<lparr>name = ''mug'', quantity = 1, price = 5, image_url = ''u'', p_id = 3\<rparr>\<rparr>,
      market\<lparr>products :=
        [pen, \<lparr>name = ''mug'', quantity = 1, price = 5, image_url = ''u'', p_id = 3\<rparr>]\<rparr>)
   \<and> update_product strict_casts id2
       \<lparr>body_name = Some (JString ''quill''), body_quantity = None, body_price = None,
        body_image = None\<rparr> market =
     (\<lparr>status = 200,
       body = ProductBody
         \<lparr>name = ''quill'', quantity = 7, price = 3 / 2,
          image_url = ''http://example.com/pen'', p_id = 2\<rparr>\<rparr>,
      market\<lparr>products :=
        [\<lparr>name = ''quill'', quantity = 7, price = 3 / 2,
          image_url = ''http://example.com/pen'', p_id = 2\<rparr>, cup]\<rparr>)
   \<and> update_product strict_casts id2
       \<lparr>body_name = None, body_quantity = Some (JString ''many''), body_price = None,
        body_image = None\<rparr> market =
     (\<lparr>status = 500, body = Message ProductUpdateError\<rparr>, market)"
proof -
  let ?full = "\<lparr>body_name = Some (JString ''mug''), body_quantity = Some (JNumber 1),
        body_price = Some (JNumber 5), body_image = Some (JString ''u'')\<rparr>"
  let ?part = "\<lparr>body_name = Some (JString ''quill''), body_quantity = None, body_price = None,
        body_image = None\<rparr>"
  let ?none = "\<lparr>body_name = Some (JString ''mug''), body_quantity = None, body_price = None,
      body_image = None\<rparr>"
  let ?bad = "\<lparr>body_name = None, body_quantity = Some (JString ''many''), body_price = None,
        body_image = None\<rparr>"
  have casts: "cast_name strict_casts (JString t) = Inr t"
    "cast_quantity strict_casts (JNumber (of_int k)) = Inr k"
    "cast_price strict_casts (JNumber x) = Inr x"
    "cast_image strict_casts (JString t) = Inr t"
    "cast_quantity strict_casts (JString t) = Inl CastError" for t k x
    by (simp_all add: strict_casts_def)
  have ids: "1 \<notin> p_id ` set (products market)" "3 \<in> p_id ` set (products market)"
    by (simp_all add: market_def pen_def cup_def)
  have "field_request (cast_name strict_casts) (body_name ?none) (Some ''mug'')
      \<and> field_request (cast_quantity strict_casts) (body_quantity ?none) None
      \<and> field_request (cast_price strict_casts) (body_price ?none) None
      \<and> field_request (cast_image strict_casts) (body_image ?none) None"
    by (simp add: field_request_def casts)
  with ids(1) update_product_cases [OF castObjectId_id1, where b = ?none and sch = strict_casts
      and s = market]
  have a: "update_product strict_casts id1 ?none market =
     (\<lparr>status = 404, body = Message ProductNotFound\<rparr>, market)"
    by blast
  have "cast_name strict_casts (JString ''mug'') = Inr ''mug''
      \<and> cast_quantity strict_casts (JNumber (of_int 1)) = Inr 1
      \<and> cast_price strict_casts (JNumber 5) = Inr 5
      \<and> cast_image strict_casts (JString ''u'') = Inr ''u''
      \<and> ?full = \<lparr>body_name = Some (JString ''mug''), body_quantity = Some (JNumber (of_int 1)),
                   body_price = Some (JNumber 5), body_image = Some (JString ''u'')\<rparr>
      \<and> 3 \<in> p_id ` set (products market)"
    using ids(2) casts(1,3,4) casts(2) [of 1] by simp
  with update_product_cases [OF castObjectId_id3, where b = ?full and sch = strict_casts
      and s = market]
  have b: "fst (update_product strict_casts id3 ?full market) =
     \<lparr>status = 200,
      body = ProductBody \<lparr>name = ''mug'', quantity = 1, price = 5, image_url = ''u'', p_id = 3\<rparr>\<rparr>"
    by blast
  have b': "snd (update_product strict_casts id3 ?full market) =
      market\<lparr>products :=
        [pen, \<lparr>name = ''mug'', quantity = 1, price = 5, image_url = ''u'', p_id = 3\<rparr>]\<rparr>"
    by (simp add: update_product_def findByIdAndUpdate_def cast_update_def cast_field_def
        apply_update_def strict_casts_def market_def pen_def cup_def)
  have c: "update_product strict_casts id2 ?part market =
     (\<lparr>status = 200,
       body = ProductBody
         \<lparr>name = ''quill'', quantity = 7, price = 3 / 2,
          image_url = ''http://example.com/pen'', p_id = 2\<rparr>\<rparr>,
      market\<lparr>products :=
        [\<lparr>name = ''quill'', quantity = 7, price = 3 / 2,
          image_url = ''http://example.com/pen'', p_id = 2\<rparr>, cup]\<rparr>)"
    by (simp add: update_product_def findByIdAndUpdate_def cast_update_def cast_field_def
        apply_update_def strict_casts_def market_def pen_def cup_def)
  have "body_quantity ?bad = Some (JString ''many'')
      \<and> cast_quantity strict_casts (JString ''many'') = Inl CastError"
    by (simp add: casts)
  with update_product_cases [OF castObjectId_id2, where b = ?bad and sch = strict_casts
      and s = market]
  have d: "update_product strict_casts id2 ?bad market =
     (\<lparr>status = 500, body = Message ProductUpdateError\<rparr>, market)"
    by blast
  from a b b' c d show ?thesis by (simp add: prod_eq_iff)
qed

theorem update_product_cases_counterexample:
  "\<not> resolves p_id (products market) (Some ''abc'')
   \<and> update_product strict_casts ''abc''
       \<lparr>body_name = Some (JString ''mug''), body_quantity = Some (JNumber 1),
        body_price = Some (JNumber 5), body_image = Some (JString ''u'')\<rparr> market =
       (\<lparr>status = 500, body = Message ProductUpdateError\<rparr>, market)
   \<and> resolves p_id (products market) (Some id2)
   \<and> update_product strict_casts id2
       \<lparr>body_name = Some (JString ''mug''), body_quantity = Some (JArray []),
        body_price = Some (JNumber 5), body_image = Some (JString ''u'')\<rparr> market =
       (\<lparr>status = 500, body = Message ProductUpdateError\<rparr>, market)"
  by (simp add: update_product_def findByIdAndUpdate_def cast_update_def cast_field_def
      strict_casts_def resolves_def idOfRequest_def market_def pen_def cup_def)

subsection \<open>DELETE /products/:productId\<close>

text \<open>
  C6, as amended. For every DELETE /products/:productId request whose identifier is well
  formed (24 hexadecimal digits): if the identifier resolves to a Product, that Product is
  removed, every other document stays, and the response is 200 with the record as it was
  before the deletion; if it does not resolve, the response is 404 with the not-found message
  and the database is unchanged. Consequently, identifiers being distinct in the collection
  (which \<open>unique_ids\<close> states and every writing handler preserves), deleting the same
  identifier twice answers 200 the first time and 404 the second.
\<close>

theorem delete_product_cases:
  assumes "castObjectId pid = Some i"
  shows "(i \<notin> p_id ` set (products s) \<longrightarrow>
            delete_product pid s = (\<lparr>status = 404, body = Message ProductNotFound\<rparr>, s))
       \<and> (i \<in> p_id ` set (products s) \<longrightarrow>
            (\<exists>ds1 d ds2. products s = ds1 @ d # ds2 \<and> p_id d = i \<and> i \<notin> p_id ` set ds1
               \<and> delete_product pid s =
                   (\<lparr>status = 200, body = ProductBody d\<rparr>, s\<lparr>products := ds1 @ ds2\<rparr>)))
       \<and> (i \<in> p_id ` set (products s) \<and> distinct (map p_id (products s)) \<longrightarrow>
            status (fst (delete_product pid s)) = 200
            \<and> fst (delete_product pid (snd (delete_product pid s))) =
                \<lparr>status = 404, body = Message ProductNotFound\<rparr>)"
proof -
  have absent: "delete_product pid t = (\<lparr>status = 404, body = Message ProductNotFound\<rparr>, t)"
    if "i \<notin> p_id ` set (products t)" for t
  proof -
    from that have "\<forall>x\<in>set (products t). \<not> p_id x = i" by auto
    then have "deleteOne (\<lambda>d. p_id d = i) (products t) = products t"
      by (rule deleteOne_absent)
    with that assms show ?thesis
      by (simp add: delete_product_def findByIdAndDelete_def find_absent)
  qed
  have present: "\<exists>ds1 d ds2. products s = ds1 @ d # ds2 \<and> p_id d = i \<and> i \<notin> p_id ` set ds1
               \<and> delete_product pid s =
                   (\<lparr>status = 200, body = ProductBody d\<rparr>, s\<lparr>products := ds1 @ ds2\<rparr>)"
    if "i \<in> p_id ` set (products s)"
  proof -
    from that obtain d where d: "find (\<lambda>d. p_id d = i) (products s) = Some d"
      using find_present by fastforce
    then obtain ds1 ds2 where split: "products s = ds1 @ d # ds2" "p_id d = i"
      "\<forall>x\<in>set ds1. \<not> p_id x = i"
      using find_Some_split [OF d] by blast
    have "deleteOne (\<lambda>d. p_id d = i) (products s) = ds1 @ ds2"
      using split deleteOne_split [of ds1 "\<lambda>d. p_id d = i" d ds2] by simp
    with assms d have "delete_product pid s =
        (\<lparr>status = 200, body = ProductBody d\<rparr>, s\<lparr>products := ds1 @ ds2\<rparr>)"
      by (simp add: delete_product_def findByIdAndDelete_def)
    with split show ?thesis
      by (intro exI [of _ ds1] exI [of _ d] exI [of _ ds2]) auto
  qed
  have twice: "status (fst (delete_product pid s)) = 200
            \<and> fst (delete_product pid (snd (delete_product pid s))) =
                \<lparr>status = 404, body = Message ProductNotFound\<rparr>"
    if "i \<in> p_id ` set (products s)" and dist: "distinct (map p_id (products s))"
  proof -
    from present [OF that(1)] obtain ds1 d ds2 where
      split: "products s = ds1 @ d # ds2" "p_id d = i" and
      del: "delete_product pid s =
              (\<lparr>status = 200, body = ProductBody d\<rparr>, s\<lparr>products := ds1 @ ds2\<rparr>)"
      by blast
    from dist split have "i \<notin> p_id ` set (ds1 @ ds2)" by auto
    then have "i \<notin> p_id ` set (products (s\<lparr>products := ds1 @ ds2\<rparr>))" by simp
    from absent [OF this] del show ?thesis by simp
  qed
  from absent present twice show ?thesis by blast
qed

theorem delete_product_cases_witness:
  "delete_product id1 market = (\<lparr>status = 404, body = Message ProductNotFound\<rparr>, market)
   \<and> delete_product id2 market =
       (\<lparr>status = 200, body = ProductBody pen\<rparr>, market\<lparr>products := [cup]\<rparr>)
   \<and> fst (delete_product id2 (snd (delete_product id2 market))) =
       \<lparr>status = 404, body = Message ProductNotFound\<rparr>"
proof -
  have a: "delete_product id1 market = (\<lparr>status = 404, body = Message ProductNotFound\<rparr>, market)"
    using delete_product_cases [of id1 1 market]
    by (simp add: market_def pen_def cup_def)
  have b: "delete_product id2 market =
       (\<lparr>status = 200, body = ProductBody pen\<rparr>, market\<lparr>products := [cup]\<rparr>)"
    by (simp add: delete_product_def findByIdAndDelete_def market_def pen_def cup_def)
  have c: "fst (delete_product id2 (snd (delete_product id2 market))) =
       \<lparr>status = 404, body = Message ProductNotFound\<rparr>"
    using delete_product_cases [of id2 2 market]
    by (simp add: market_def pen_def cup_def)
  from a b c show ?thesis by simp
qed

theorem delete_product_cases_counterexample:
  "\<not> resolves p_id (products market) (Some ''abc'')
   \<and> delete_product ''abc'' market =
       (\<lparr>status = 500, body = Message ProductDeleteError\<rparr>, market)"
  by (simp add: delete_product_def findByIdAndDelete_def resolves_def idOfRequest_def)

subsection \<open>GET /order-details/:orderId\<close>

text \<open>
  C2, as amended. For every GET /order-details/:orderId request whose identifier is well
  formed (24 hexadecimal digits): if it resolves to an Order whose referenced User and
  Product both exist, the response is 200 with the order, the full User record inlined
  without its password field and the full Product record inlined; if it does not resolve to
  an Order, the response is 404 with the not-found message.
\<close>

theorem order_details_cases:
  assumes "castObjectId orderId = Some i"
  shows "(\<forall>d u p. find (\<lambda>d. o_id d = i) (orders s) = Some d
             \<and> find (\<lambda>u. u_id u = userId d) (users s) = Some u
             \<and> find (\<lambda>p. p_id p = productId d) (products s) = Some p \<longrightarrow>
            order_details orderId s =
              \<lparr>status = 200,
               body = OrderDetails
                 \<lparr>o_id = o_id d, createdAt = createdAt d, userId = userId d,
                  productId = productId d,
                  userDetails = u\<lparr>password := None\<rparr>, productDetails = p\<rparr>\<rparr>)
       \<and> (i \<notin> o_id ` set (orders s) \<longrightarrow>
            order_details orderId s = \<lparr>status = 404, body = Message OrderNotFound\<rparr>)"
proof (intro conjI allI impI)
  fix d u p
  assume "find (\<lambda>d. o_id d = i) (orders s) = Some d
             \<and> find (\<lambda>u. u_id u = userId d) (users s) = Some u
             \<and> find (\<lambda>p. p_id p = productId d) (products s) = Some p"
  then obtain rest where "order_details_pipeline i s = joined d (u\<lparr>password := None\<rparr>) p # rest"
    using pipeline_first by blast
  with assms show "order_details orderId s =
              \<lparr>status = 200,
               body = OrderDetails
                 \<lparr>o_id = o_id d, createdAt = createdAt d, userId = userId d,
                  productId = productId d,
                  userDetails = u\<lparr>password := None\<rparr>, productDetails = p\<rparr>\<rparr>"
    by (simp add: order_details_def joined_def)
next
  assume "i \<notin> o_id ` set (orders s)"
  then have "order_details_pipeline i s = []"
    by (intro pipeline_empty) auto
  with assms show "order_details orderId s = \<lparr>status = 404, body = Message OrderNotFound\<rparr>"
    by (simp add: order_details_def)
qed

theorem order_details_cases_witness:
  "order_details id4 market =
     \<lparr>status = 200,
      body = OrderDetails
        \<lparr>o_id = 4, createdAt = 5, userId = 1, productId = 2,
         userDetails = \<lparr>firstName = ''Alice'', lastName = ''Doe'', email = ''alice@example.com'',
                        u_id = 1, password = None\<rparr>,
         productDetails = pen\<rparr>\<rparr>
   \<and> order_details id3 market = \<lparr>status = 404, body = Message OrderNotFound\<rparr>"
proof -
  have a: "order_details id4 market =
     \<lparr>status = 200,
      body = OrderDetails
        \<lparr>o_id = 4, createdAt = 5, userId = 1, productId = 2,
         userDetails = \<lparr>firstName = ''Alice'', lastName = ''Doe'', email = ''alice@example.com'',
                        u_id = 1, password = None\<rparr>,
         productDetails = pen\<rparr>\<rparr>"
    using order_details_cases [of id4 4 market]
    by (simp add: market_def alice_def pen_def cup_def)
  have b: "order_details id3 market = \<lparr>status = 404, body = Message OrderNotFound\<rparr>"
    using order_details_cases [of id3 3 market]
    by (simp add: market_def)
  from a b show ?thesis by simp
qed

theorem order_details_cases_counterexample:
  "resolves o_id (orders market) (Some id5)
   \<and> order_details id5 market = \<lparr>status = 404, body = Message OrderNotFound\<rparr>
   \<and> \<not> resolves o_id (orders market) (Some ''abc'')
   \<and> order_details ''abc'' market = \<lparr>status = 500, body = Message OrderDetailsError\<rparr>"
  by (simp add: order_details_def order_details_pipeline_def project_password_def
      unwind_productDetails_def lookup_products_def unwind_userDetails_def lookup_users_def
      match_id_def resolves_def idOfRequest_def market_def alice_def pen_def cup_def)

text \<open>
  C8. For every GET /order-details/:orderId request whose identifier resolves to an existing
  Order while the User or the Product that Order references is not in its collection, the
  \<^verbatim>\<open>$unwind\<close> stages leave the pipeline result empty and the response is 404 with the
  not-found message, although the Order record exists.
\<close>

theorem order_details_dangling:
  assumes "castObjectId orderId = Some i"
    and "i \<in> o_id ` set (orders s)"
    and "\<forall>d\<in>set (orders s). o_id d = i \<longrightarrow>
           userId d \<notin> u_id ` set (users s) \<or> productId d \<notin> p_id ` set (products s)"
  shows "order_details orderId s = \<lparr>status = 404, body = Message OrderNotFound\<rparr>"
  using assms(1) pipeline_empty [OF assms(3)] by (simp add: order_details_def)

theorem order_details_dangling_witness:
  "castObjectId id5 = Some 5 \<and> 5 \<in> o_id ` set (orders market)
   \<and> order_details id5 market = \<lparr>status = 404, body = Message OrderNotFound\<rparr>"
proof -
  have h: "castObjectId id5 = Some 5 \<and> 5 \<in> o_id ` set (orders market)"
    by (simp add: market_def)
  have "\<forall>d\<in>set (orders market). o_id d = 5 \<longrightarrow>
          userId d \<notin> u_id ` set (users market) \<or> productId d \<notin> p_id ` set (products market)"
    by (simp add: market_def pen_def cup_def)
  with h order_details_dangling [of id5 5 market] show ?thesis by simp
qed

subsection \<open>GET /products-statistic\<close>

text \<open>
  C3, as amended. For every state of the Product collection GET /products-statistic answers
  200. Over a non-empty collection the body is a single-element list holding one object with
  exactly the seven fields avgPrice, totalPrice, minPrice, maxPrice, uniqueNames,
  firstProductName and lastProductName, computed across all Products in one pass: the mean,
  the sum, the least and the greatest price, each name once, and the names of the first and
  of the last document; over an empty collection the body is the empty list. In particular,
  for products with prices 10, 20, 30 it yields avgPrice 20, totalPrice 60, minPrice 10 and
  maxPrice 30.
\<close>

theorem products_statistic_cases:
  "(products s = [] \<longrightarrow>
      products_statistic s = \<lparr>status = 200, body = StatisticList []\<rparr>)
   \<and> (products s \<noteq> [] \<longrightarrow>
        (\<exists>r. products_statistic s = \<lparr>status = 200, body = StatisticList [r]\<rparr>
           \<and> avgPrice r = sum_list (map price (products s)) / of_nat (length (products s))
           \<and> totalPrice r = sum_list (map price (products s))
           \<and> minPrice r = Min (price ` set (products s))
           \<and> maxPrice r = Max (price ` set (products s))
           \<and> set (uniqueNames r) = name ` set (products s)
           \<and> distinct (uniqueNames r)
           \<and> firstProductName r = name (hd (products s))
           \<and> lastProductName r = name (last (products s))))
   \<and> (map price (products s) = [10, 20, 30] \<longrightarrow>
        (\<exists>r. products_statistic s = \<lparr>status = 200, body = StatisticList [r]\<rparr>
           \<and> avgPrice r = 20 \<and> totalPrice r = 60 \<and> minPrice r = 10 \<and> maxPrice r = 30))"
proof -
  have general: "\<exists>r. products_statistic s = \<lparr>status = 200, body = StatisticList [r]\<rparr>
           \<and> avgPrice r = sum_list (map price (products s)) / of_nat (length (products s))
           \<and> totalPrice r = sum_list (map price (products s))
           \<and> minPrice r = Min (price ` set (products s))
           \<and> maxPrice r = Max (price ` set (products s))
           \<and> set (uniqueNames r) = name ` set (products s)
           \<and> distinct (uniqueNames r)
           \<and> firstProductName r = name (hd (products s))
           \<and> lastProductName r = name (last (products s))"
    if "products s \<noteq> []"
  proof -
    from that obtain d ds where ps: "products s = d # ds" by (cases "products s") auto
    let ?a = "foldl group_step (group_init d) ds"
    have a: "?a = \<lparr>acc_count = 1 + length ds,
      acc_sum = price d + sum_list (map price ds),
      acc_min = Min (set (price d # map price ds)),
      acc_max = Max (set (price d # map price ds)),
      acc_names = acc_names ?a,
      acc_first = d,
      acc_last = last (d # ds)\<rparr>"
      by (subst foldl_group_step) (simp add: group_init_def fold_min_Min fold_max_Max)
    have names: "set (acc_names ?a) = name ` set (d # ds) \<and> distinct (acc_names ?a)"
      using names_group_step [of "group_init d" ds] by (simp add: group_init_def)
    have resp: "products_statistic s =
        \<lparr>status = 200, body = StatisticList [project_statistic ?a]\<rparr>"
      by (simp add: products_statistic_def group_all_def ps)
    have "avgPrice (project_statistic ?a) = (price d + sum_list (map price ds)) / of_nat (1 + length ds)"
      by (subst a) (simp add: project_statistic_def)
    moreover have "totalPrice (project_statistic ?a) = price d + sum_list (map price ds)"
      by (subst a) (simp add: project_statistic_def)
    moreover have "minPrice (project_statistic ?a) = Min (set (price d # map price ds))"
      by (subst a) (simp add: project_statistic_def)
    moreover have "maxPrice (project_statistic ?a) = Max (set (price d # map price ds))"
      by (subst a) (simp add: project_statistic_def)
    moreover have "firstProductName (project_statistic ?a) = name d"
      by (subst a) (simp add: project_statistic_def)
    moreover have "lastProductName (project_statistic ?a) = name (last (d # ds))"
      by (subst a) (simp add: project_statistic_def)
    moreover have "uniqueNames (project_statistic ?a) = acc_names ?a"
      by (simp add: project_statistic_def)
    ultimately show ?thesis
      using resp names ps by (intro exI [of _ "project_statistic ?a"]) simp
  qed
  have example: "\<exists>r. products_statistic s = \<lparr>status = 200, body = StatisticList [r]\<rparr>
           \<and> avgPrice r = 20 \<and> totalPrice r = 60 \<and> minPrice r = 10 \<and> maxPrice r = 30"
    if prices: "map price (products s) = [10, 20, 30]"
  proof -
    from prices have ne: "products s \<noteq> []" by auto
    have len: "length (products s) = 3"
      using arg_cong [OF prices, of length] by simp
    have img: "price ` set (products s) = {10, 20, 30}"
      using arg_cong [OF prices, of set] by simp
    from general [OF ne] obtain r where
      "products_statistic s = \<lparr>status = 200, body = StatisticList [r]\<rparr>"
      "avgPrice r = sum_list (map price (products s)) / of_nat (length (products s))"
      "totalPrice r = sum_list (map price (products s))"
      "minPrice r = Min (price ` set (products s))"
      "maxPrice r = Max (price ` set (products s))"
      by blast
    then show ?thesis
      by (intro exI [of _ r]) (simp add: prices len img)
  qed
  have empty: "products_statistic s = \<lparr>status = 200, body = StatisticList []\<rparr>"
    if "products s = []"
    using that by (simp add: products_statistic_def group_all_def)
  from general example empty show ?thesis by blast
qed

theorem products_statistic_cases_witness:
  "products_statistic trio =
     \<lparr>status = 200,
      body = StatisticList
        [\<lparr>avgPrice = 20, totalPrice = 60, minPrice = 10, maxPrice = 30,
          uniqueNames = [''ink'', ''nib''], firstProductName = ''ink'',
          lastProductName = ''ink''\<rparr>]\<rparr>
   \<and> (\<exists>r. products_statistic trio = \<lparr>status = 200, body = StatisticList [r]\<rparr>
          \<and> avgPrice r = 20 \<and> totalPrice r = 60 \<and> minPrice r = 10 \<and> maxPrice r = 30)
   \<and> products_statistic empty_db = \<lparr>status = 200, body = StatisticList []\<rparr>"
proof -
  have a: "products_statistic trio =
     \<lparr>status = 200,
      body = StatisticList
        [\<lparr>avgPrice = 20, totalPrice = 60, minPrice = 10, maxPrice = 30,
          uniqueNames = [''ink'', ''nib''], firstProductName = ''ink'',
          lastProductName = ''ink''\<rparr>]\<rparr>"
    by (simp add: products_statistic_def group_all_def group_init_def group_step_def
        project_statistic_def trio_def)
  have b: "\<exists>r. products_statistic trio = \<lparr>status = 200, body = StatisticList [r]\<rparr>
          \<and> avgPrice r = 20 \<and> totalPrice r = 60 \<and> minPrice r = 10 \<and> maxPrice r = 30"
    using products_statistic_cases [of trio] by (simp add: trio_def)
  have c: "products_statistic empty_db = \<lparr>status = 200, body = StatisticList []\<rparr>"
    using products_statistic_cases [of empty_db] by (simp add: empty_db_def)
  from a b c show ?thesis by simp
qed

theorem products_statistic_cases_counterexample:
  "products empty_db = []
   \<and> products_statistic empty_db = \<lparr>status = 200, body = StatisticList []\<rparr>"
  by (simp add: products_statistic_def group_all_def empty_db_def)

subsection \<open>GET /products\<close>




text \<open>
  C10. For every GET /products request, a limit parameter that parses to 0 (such as
  limit=0) or does not parse to an integer is replaced by the default limit 10, and a skip
  parameter that does not parse to an integer is replaced by 0; the limit that reaches the
  pipeline is never 0, and the request with limit=0 gets the response of the request with
  no limit, so limit=0 cannot ask for an empty page.
\<close>

theorem limit_skip_defaults:
  "(parseInt (toString (q_limit q)) = None \<or> parseInt (toString (q_limit q)) = Some 0 \<longrightarrow>
      limitValue q = 10)
   \<and> (parseInt (toString (q_skip q)) = None \<longrightarrow> skipValue q = 0)
   \<and> limitValue q \<noteq> 0
   \<and> limitValue (q\<lparr>q_limit := Some ''0''\<rparr>) = 10
   \<and> (\<forall>pl. products_pipeline RegExp_i q = Inr pl \<longrightarrow> Limit 0 \<notin> set pl)
   \<and> products_handler RegExp_i (q\<lparr>q_limit := Some ''0''\<rparr>) s =
       products_handler RegExp_i (q\<lparr>q_limit := None\<rparr>) s"
proof -
  have a: "parseInt (toString (q_limit q)) = None \<or> parseInt (toString (q_limit q)) = Some 0 \<longrightarrow>
      limitValue q = 10"
    by (auto simp: limitValue_def or_default_def)
  have b: "parseInt (toString (q_skip q)) = None \<longrightarrow> skipValue q = 0"
    by (simp add: skipValue_def or_default_def)
  have c: "limitValue q \<noteq> 0"
    by (simp add: limitValue_def or_default_nonzero)
  have d: "limitValue (q\<lparr>q_limit := Some ''0''\<rparr>) = 10"
    by (simp add: limitValue_def toString_def parseInt_0 or_default_def)
  have e: "\<forall>pl. products_pipeline RegExp_i q = Inr pl \<longrightarrow> Limit 0 \<notin> set pl"
    using c
    by (auto simp: products_pipeline_def match_stages_def split: sum.splits option.splits if_splits)
  have "limitValue (q\<lparr>q_limit := None\<rparr>) = 10"
    by (simp add: limitValue_def toString_def parseInt_undefined or_default_def)
  moreover have "match_stages RegExp_i (q\<lparr>q_limit := v\<rparr>) = match_stages RegExp_i q"
    and "sortField (q\<lparr>q_limit := v\<rparr>) = sortField q"
    and "skipValue (q\<lparr>q_limit := v\<rparr>) = skipValue q" for v
    by (simp_all add: match_stages_def sortField_def skipValue_def)
  ultimately have "products_pipeline RegExp_i (q\<lparr>q_limit := Some ''0''\<rparr>) =
      products_pipeline RegExp_i (q\<lparr>q_limit := None\<rparr>)"
    using d by (simp add: products_pipeline_def split: sum.splits)
  then have f: "products_handler RegExp_i (q\<lparr>q_limit := Some ''0''\<rparr>) s =
       products_handler RegExp_i (q\<lparr>q_limit := None\<rparr>) s"
    by (simp add: products_handler_def)
  from a b c d e f show ?thesis by simp
qed

theorem limit_skip_defaults_witness:
  "limitValue \<lparr>q_sort = None, q_limit = Some ''0'', q_skip = Some ''x'', q_search = None\<rparr> = 10
   \<and> limitValue \<lparr>q_sort = None, q_limit = Some ''ten'', q_skip = None, q_search = None\<rparr> = 10
   \<and> skipValue \<lparr>q_sort = None, q_limit = Some ''0'', q_skip = Some ''x'', q_search = None\<rparr> = 0
   \<and> products_handler wildcard_regex
       \<lparr>q_sort = None, q_limit = Some ''0'', q_skip = Some ''x'', q_search = None\<rparr> five =
     \<lparr>status = 200, body = ProductList [apple, fig, kiwi, lime, pear]\<rparr>"
proof -
  let ?q = "\<lparr>q_sort = None, q_limit = Some ''0'', q_skip = Some ''x'', q_search = None\<rparr>"
  let ?r = "\<lparr>q_sort = None, q_limit = Some ''ten'', q_skip = None, q_search = None\<rparr>"
  have p: "parseInt ''x'' = None \<and> parseInt ''ten'' = None"
    by (simp add: parseInt_def isWhiteSpace_def decDigit_def)
  have a: "limitValue ?q = 10 \<and> skipValue ?q = 0"
    using limit_skip_defaults [of ?q wildcard_regex five] p
    by (simp add: toString_def parseInt_0)
  have b: "limitValue ?r = 10"
    using limit_skip_defaults [of ?r wildcard_regex five] p
    by (simp add: toString_def)
  have "products_handler wildcard_regex (?q\<lparr>q_limit := None\<rparr>) five =
     \<lparr>status = 200, body = ProductList [apple, fig, kiwi, lime, pear]\<rparr>"
    by (simp add: products_handler_def products_pipeline_def match_stages_def sortField_def
        skipValue_def limitValue_def or_default_def parseInt_def isWhiteSpace_def decDigit_def
        radixValue_def toString_def sort_key_def valid_path_def sort_by_def int64_max_def
        five_def pear_def fig_def kiwi_def apple_def lime_def)
  with limit_skip_defaults [of ?q wildcard_regex five]
  have c: "products_handler wildcard_regex ?q five =
     \<lparr>status = 200, body = ProductList [apple, fig, kiwi, lime, pear]\<rparr>"
    by simp
  from a b c show ?thesis by simp
qed

subsection \<open>GET /add-initial-data\<close>

text \<open>
  C7. Every successful GET /add-initial-data call (status 200) appends exactly 10 new User
  records and then exactly 10 new Product records, each under a fresh identifier and none
  left out as a duplicate, and leaves the Orders untouched. The records hold what the
  random generator returns, call after call: every User the first name, last name and email
  of three successive calls, and, after the ten Users, every Product the word of one call
  as name, as quantity the integer that the next draw \<open>r\<close> gives,
  \<open>\<lfloor>r / 2^32 * 100 + 1\<rfloor>\<close>, between 1 and 100, as price the hundredths that the draw
  after it gives, \<open>\<lfloor>r / 2^32 * 99901 + 100\<rfloor> / 100\<close>, between 1 and 1000, and the URL of
  a fourth call as image. A second successful call adds as many again: the collections have
  grown by 20, and from an empty database the counts after the second call are twice those
  after the first.
\<close>

theorem add_initial_data_success:
  assumes run: "add_initial_data sch ch g s = (r, g1, s1)" and ok: "status r = 200"
  shows "(\<exists>us ps gs hs. length us = 10 \<and> length ps = 10
      \<and> users s1 = users s @ us \<and> products s1 = products s @ ps \<and> orders s1 = orders s
      \<and> length gs = 11 \<and> gs ! 0 = g \<and> length hs = 11 \<and> hs ! 0 = gs ! 10 \<and> g1 = hs ! 10
      \<and> (\<forall>k<10. \<exists>f a l b e.
             chance_first ch (gs ! k) = (f, a) \<and> chance_last ch a = (l, b)
           \<and> chance_email ch b = (e, gs ! Suc k)
           \<and> firstName (us ! k) = f \<and> lastName (us ! k) = l \<and> email (us ! k) = e)
      \<and> (\<forall>k<10. \<exists>w a r b r' c u.
             chance_word ch (hs ! k) = (w, a) \<and> genrand_int32 ch a = (r, b)
           \<and> genrand_int32 ch b = (r', c) \<and> chance_url ch c = (u, hs ! Suc k)
           \<and> name (ps ! k) = w
           \<and> quantity (ps ! k) = \<lfloor>(of_nat (unat r) / 4294967296 :: rat) * 100 + 1\<rfloor>
           \<and> price (ps ! k) =
               of_int \<lfloor>(of_nat (unat r') / 4294967296 :: rat) * 99901 + 100\<rfloor> / 100
           \<and> image_url (ps ! k) = u)
      \<and> distinct (map u_id us) \<and> set (map u_id us) \<inter> set (map u_id (users s)) = {}
      \<and> distinct (map p_id ps) \<and> set (map p_id ps) \<inter> set (map p_id (products s)) = {}
      \<and> (\<forall>p\<in>set ps. 1 \<le> quantity p \<and> quantity p \<le> 100 \<and> 1 \<le> price p \<and> price p \<le> 1000
             \<and> (\<exists>n::int. price p = of_int n / 100)))
   \<and> (\<forall>r2 g2 s2. add_initial_data sch ch g1 s1 = (r2, g2, s2) \<and> status r2 = 200 \<longrightarrow>
         length (users s2) = length (users s) + 20
         \<and> length (products s2) = length (products s) + 20
         \<and> (users s = [] \<and> products s = [] \<longrightarrow>
              length (users s2) = 2 * length (users s1)
              \<and> length (products s2) = 2 * length (products s1)))"
proof (intro conjI allI impI)
  let ?Ru = "\<lambda>(u::user) (a::user_data).
    firstName u = firstName a \<and> lastName u = lastName a \<and> email u = email a"
  let ?Rp = "\<lambda>(p::product) (a::product_data).
    name p = name a \<and> quantity p = quantity a \<and> price p = price a \<and> image_url p = image_url a"
  let ?UD = "fst (array_from 10 (generateUserData ch) g)"
  let ?gu = "snd (array_from 10 (generateUserData ch) g)"
  let ?PD = "fst (array_from 10 (generateProductData ch) ?gu)"
  let ?ok = "\<lambda>a::product_data. 1 \<le> quantity a \<and> quantity a \<le> 100 \<and> 1 \<le> price a
      \<and> price a \<le> 1000 \<and> (\<exists>n::int. price a = of_int n / 100)"
  from add_initial_data_step [OF run ok] obtain us ps where
    step: "length us = 10" "length ps = 10"
      "users s1 = users s @ us" "products s1 = products s @ ps" "orders s1 = orders s"
      "list_all2 ?Ru us ?UD" "list_all2 ?Rp ps ?PD"
      "distinct (map u_id us)" "set (map u_id us) \<inter> set (map u_id (users s)) = {}"
      "distinct (map p_id ps)" "set (map p_id ps) \<inter> set (map p_id (products s)) = {}"
    by blast
  from add_initial_data_state [OF run] ok
  have g1: "g1 = snd (array_from 10 (generateProductData ch) ?gu)" by simp
  from array_from_states [of 10 g "generateUserData ch"] obtain gs where
    gs: "length gs = 11" "gs ! 0 = g" "gs ! 10 = ?gu"
      "\<forall>k<10. ?UD ! k = fst (generateUserData ch (gs ! k))
         \<and> gs ! Suc k = snd (generateUserData ch (gs ! k))"
    by auto
  from array_from_states [of 10 ?gu "generateProductData ch"] obtain hs where
    hs: "length hs = 11" "hs ! 0 = ?gu"
      "hs ! 10 = snd (array_from 10 (generateProductData ch) ?gu)"
      "\<forall>k<10. ?PD ! k = fst (generateProductData ch (hs ! k))
         \<and> hs ! Suc k = snd (generateProductData ch (hs ! k))"
    by auto
  have users: "\<forall>k<10. \<exists>f a l b e.
             chance_first ch (gs ! k) = (f, a) \<and> chance_last ch a = (l, b)
           \<and> chance_email ch b = (e, gs ! Suc k)
           \<and> firstName (us ! k) = f \<and> lastName (us ! k) = l \<and> email (us ! k) = e"
  proof (intro allI impI)
    fix k :: nat assume k: "k < 10"
    from generateUserData_calls [of ch "gs ! k"] obtain f a l b e c where
      calls: "chance_first ch (gs ! k) = (f, a)" "chance_last ch a = (l, b)"
        "chance_email ch b = (e, c)"
        "generateUserData ch (gs ! k) = (\<lparr>firstName = f, lastName = l, email = e\<rparr>, c)"
      by blast
    from gs(4) k calls(4) have "?UD ! k = \<lparr>firstName = f, lastName = l, email = e\<rparr>"
      and "gs ! Suc k = c" by simp_all
    moreover have "?Ru (us ! k) (?UD ! k)"
      using list_all2_nthD [OF step(6), of k] k step(1) by simp
    ultimately show "\<exists>f a l b e.
             chance_first ch (gs ! k) = (f, a) \<and> chance_last ch a = (l, b)
           \<and> chance_email ch b = (e, gs ! Suc k)
           \<and> firstName (us ! k) = f \<and> lastName (us ! k) = l \<and> email (us ! k) = e"
      using calls(1-3) by auto
  qed
  have prods: "\<forall>k<10. \<exists>w a r b r' c u.
             chance_word ch (hs ! k) = (w, a) \<and> genrand_int32 ch a = (r, b)
           \<and> genrand_int32 ch b = (r', c) \<and> chance_url ch c = (u, hs ! Suc k)
           \<and> name (ps ! k) = w
           \<and> quantity (ps ! k) = \<lfloor>(of_nat (unat r) / 4294967296 :: rat) * 100 + 1\<rfloor>
           \<and> price (ps ! k) =
               of_int \<lfloor>(of_nat (unat r') / 4294967296 :: rat) * 99901 + 100\<rfloor> / 100
           \<and> image_url (ps ! k) = u"
  proof (intro allI impI)
    fix k :: nat assume k: "k < 10"
    from generateProductData_calls [of ch "hs ! k"] obtain w a r b r' c u d where
      calls: "chance_word ch (hs ! k) = (w, a)" "genrand_int32 ch a = (r, b)"
        "genrand_int32 ch b = (r', c)" "chance_url ch c = (u, d)"
        "generateProductData ch (hs ! k) =
         (\<lparr>name = w,
           quantity = \<lfloor>(of_nat (unat r) / 4294967296 :: rat) * 100 + 1\<rfloor>,
           price = of_int \<lfloor>(of_nat (unat r') / 4294967296 :: rat) * 99901 + 100\<rfloor> / 100,
           image_url = u\<rparr>, d)"
      by blast
    from hs(4) k calls(5) have "?PD ! k =
          \<lparr>name = w,
           quantity = \<lfloor>(of_nat (unat r) / 4294967296 :: rat) * 100 + 1\<rfloor>,
           price = of_int \<lfloor>(of_nat (unat r') / 4294967296 :: rat) * 99901 + 100\<rfloor> / 100,
           image_url = u\<rparr>"
      and "hs ! Suc k = d" by simp_all
    moreover have "?Rp (ps ! k) (?PD ! k)"
      using list_all2_nthD [OF step(7), of k] k step(2) by simp
    ultimately show "\<exists>w a r b r' c u.
             chance_word ch (hs ! k) = (w, a) \<and> genrand_int32 ch a = (r, b)
           \<and> genrand_int32 ch b = (r', c) \<and> chance_url ch c = (u, hs ! Suc k)
           \<and> name (ps ! k) = w
           \<and> quantity (ps ! k) = \<lfloor>(of_nat (unat r) / 4294967296 :: rat) * 100 + 1\<rfloor>
           \<and> price (ps ! k) =
               of_int \<lfloor>(of_nat (unat r') / 4294967296 :: rat) * 99901 + 100\<rfloor> / 100
           \<and> image_url (ps ! k) = u"
      using calls(1-4) by auto
  qed
  have gen: "\<forall>a\<in>set ?PD. ?ok a"
    by (rule array_from_all) (rule generateProductData_range)
  have range: "\<forall>p\<in>set ps. 1 \<le> quantity p \<and> quantity p \<le> 100 \<and> 1 \<le> price p \<and> price p \<le> 1000
             \<and> (\<exists>n::int. price p = of_int n / 100)"
  proof
    fix p assume "p \<in> set ps"
    then obtain i where i: "i < length ps" "ps ! i = p"
      by (auto simp: in_set_conv_nth)
    from step(7) have len: "length ps = length ?PD" by (rule list_all2_lengthD)
    from step(7) i(1) have "?Rp (ps ! i) (?PD ! i)" by (rule list_all2_nthD)
    moreover from i(1) len have "?PD ! i \<in> set ?PD" by simp
    ultimately obtain a where "a \<in> set ?PD" "?Rp p a"
      using i(2) by blast
    with gen show "1 \<le> quantity p \<and> quantity p \<le> 100 \<and> 1 \<le> price p \<and> price p \<le> 1000
             \<and> (\<exists>n::int. price p = of_int n / 100)"
      by auto
  qed
  from step(1-5,8-11) gs(1-3) hs(1-3) g1 users prods range
  show "\<exists>us ps gs hs. length us = 10 \<and> length ps = 10
      \<and> users s1 = users s @ us \<and> products s1 = products s @ ps \<and> orders s1 = orders s
      \<and> length gs = 11 \<and> gs ! 0 = g \<and> length hs = 11 \<and> hs ! 0 = gs ! 10 \<and> g1 = hs ! 10
      \<and> (\<forall>k<10. \<exists>f a l b e.
             chance_first ch (gs ! k) = (f, a) \<and> chance_last ch a = (l, b)
           \<and> chance_email ch b = (e, gs ! Suc k)
           \<and> firstName (us ! k) = f \<and> lastName (us ! k) = l \<and> email (us ! k) = e)
      \<and> (\<forall>k<10. \<exists>w a r b r' c u.
             chance_word ch (hs ! k) = (w, a) \<and> genrand_int32 ch a = (r, b)
           \<and> genrand_int32 ch b = (r', c) \<and> chance_url ch c = (u, hs ! Suc k)
           \<and> name (ps ! k) = w
           \<and> quantity (ps ! k) = \<lfloor>(of_nat (unat r) / 4294967296 :: rat) * 100 + 1\<rfloor>
           \<and> price (ps ! k) =
               of_int \<lfloor>(of_nat (unat r') / 4294967296 :: rat) * 99901 + 100\<rfloor> / 100
           \<and> image_url (ps ! k) = u)
      \<and> distinct (map u_id us) \<and> set (map u_id us) \<inter> set (map u_id (users s)) = {}
      \<and> distinct (map p_id ps) \<and> set (map p_id ps) \<inter> set (map p_id (products s)) = {}
      \<and> (\<forall>p\<in>set ps. 1 \<le> quantity p \<and> quantity p \<le> 100 \<and> 1 \<le> price p \<and> price p \<le> 1000
             \<and> (\<exists>n::int. price p = of_int n / 100))"
    by (intro exI [of _ us] exI [of _ ps] exI [of _ gs] exI [of _ hs] conjI) simp_all
next
  fix r2 g2 s2
  assume second: "add_initial_data sch ch g1 s1 = (r2, g2, s2) \<and> status r2 = 200"
  from add_initial_data_step [OF run ok] obtain us ps where
    one: "length us = 10" "length ps = 10" "users s1 = users s @ us" "products s1 = products s @ ps"
    by blast
  from second add_initial_data_step [of sch ch g1 s1 r2 g2 s2] obtain us2 ps2 where
    two: "length us2 = 10" "length ps2 = 10" "users s2 = users s1 @ us2"
      "products s2 = products s1 @ ps2"
    by blast
  from one two show "length (users s2) = length (users s) + 20" by simp
  from one two show "length (products s2) = length (products s) + 20" by simp
  from one two show "length (users s2) = 2 * length (users s1)"
    if "users s = [] \<and> products s = []" using that by simp
  from one two show "length (products s2) = 2 * length (products s1)"
    if "users s = [] \<and> products s = []" using that by simp
qed

theorem add_initial_data_success_witness:
  "status (fst seeded_once) = 200 \<and> status (fst seeded_twice) = 200
   \<and> fst (snd seeded_once) = 70
   \<and> users (snd (snd seeded_once)) =
       [\<lparr>firstName = ''ada'', lastName = ''bobson'', email = ''cy@example.com'',
         u_id = 1, password = None\<rparr>,
        \<lparr>firstName = ''dee'', lastName = ''eveson'', email = ''fay@example.com'',
         u_id = 2, password = None\<rparr>,
        \<lparr>firstName = ''gus'', lastName = ''adason'', email = ''bob@example.com'',
         u_id = 3, password = None\<rparr>,
        \<lparr>firstName = ''cy'', lastName = ''deeson'', email = ''eve@example.com'',
         u_id = 4, password = None\<rparr>,
        \<lparr>firstName = ''fay'', lastName = ''gusson'', email = ''ada@example.com'',
         u_id = 5, password = None\<rparr>,
        \<lparr>firstName = ''bob'', lastName = ''cyson'', email = ''dee@example.com'',
         u_id = 6, password = None\<rparr>,
        \<lparr>firstName = ''eve'', lastName = ''fayson'', email = ''gus@example.com'',
         u_id = 7, password = None\<rparr>,
        \<lparr>firstName = ''ada'', lastName = ''bobson'', email = ''cy@example.com'',
         u_id = 8, password = None\<rparr>,
        \<lparr>firstName = ''dee'', lastName = ''eveson'', email = ''fay@example.com'',
         u_id = 9, password = None\<rparr>,
        \<lparr>firstName = ''gus'', lastName = ''adason'', email = ''bob@example.com'',
         u_id = 10, password = None\<rparr>]
   \<and> products (snd (snd seeded_once)) =
       [\<lparr>name = ''cyware'', quantity = 26, price = 1001 / 2,
         image_url = ''http://example.com/fay'', p_id = 1\<rparr>,
        \<lparr>name = ''gusware'', quantity = 1, price = 1003 / 4,
         image_url = ''http://example.com/cy'', p_id = 2\<rparr>,
        \<lparr>name = ''deeware'', quantity = 100, price = 1,
         image_url = ''http://example.com/gus'', p_id = 3\<rparr>,
        \<lparr>name = ''adaware'', quantity = 76, price = 1000,
         image_url = ''http://example.com/dee'', p_id = 4\<rparr>,
        \<lparr>name = ''eveware'', quantity = 51, price = 3001 / 4,
         image_url = ''http://example.com/ada'', p_id = 5\<rparr>,
        \<lparr>name = ''bobware'', quantity = 26, price = 1001 / 2,
         image_url = ''http://example.com/eve'', p_id = 6\<rparr>,
        \<lparr>name = ''fayware'', quantity = 1, price = 1003 / 4,
         image_url = ''http://example.com/bob'', p_id = 7\<rparr>,
        \<lparr>name = ''cyware'', quantity = 100, price = 1,
         image_url = ''http://example.com/fay'', p_id = 8\<rparr>,
        \<lparr>name = ''gusware'', quantity = 76, price = 1000,
         image_url = ''http://example.com/cy'', p_id = 9\<rparr>,
        \<lparr>name = ''deeware'', quantity = 51, price = 3001 / 4,
         image_url = ''http://example.com/gus'', p_id = 10\<rparr>]
   \<and> length (users (snd (snd seeded_twice))) = 20
   \<and> length (products (snd (snd seeded_twice))) = 20"
proof -
  have ok1: "status (fst seeded_once) = 200"
    by (simp add: seeded_once_def add_initial_data_open)
  have ok2: "status (fst seeded_twice) = 200"
    by (simp add: seeded_twice_def add_initial_data_open)
  have run1: "add_initial_data open_schemas counting_chance 0 empty_db =
      (fst seeded_once, fst (snd seeded_once), snd (snd seeded_once))"
    by (simp add: seeded_once_def)
  have run2: "add_initial_data open_schemas counting_chance (fst (snd seeded_once))
        (snd (snd seeded_once)) =
      (fst seeded_twice, fst (snd seeded_twice), snd (snd seeded_twice))"
    by (simp add: seeded_twice_def)
  note inst = add_initial_data_success [OF run1 ok1]
  from inst [THEN conjunct2, rule_format, OF conjI [OF run2 ok2]]
  have twice: "length (users (snd (snd seeded_twice))) = 20
      \<and> length (products (snd (snd seeded_twice))) = 20"
    by (simp add: empty_db_def)
  have once: "seeded_once =
      (\<lparr>status = 200, body = Message InitialDataAdded\<rparr>, 70,
       \<lparr>users =
          fold (\<lambda>a c. c @ [new_user (newObjectId (map u_id c)) a])
            (fst (array_from 10 (generateUserData counting_chance) 0)) [],
        products =
          fold (\<lambda>a c. c @ [new_product (newObjectId (map p_id c)) a])
            (fst (array_from 10 (generateProductData counting_chance) 30)) [],
        orders = []\<rparr>)"
    by (simp add: seeded_once_def add_initial_data_def insertMany_def open_schemas_def
        counted_data counted_products empty_db_def list_all_iff)
  show ?thesis
    using ok1 ok2 twice
    by (simp add: once counted_data counted_products new_user_def new_product_def
        newObjectId_def)
qed

end
